theory Spec2Isabelle
  imports Main "HOL-Library.Word"
begin

unbundle bit_operations_syntax

section \<open>Numeric point identifiers (internal/vector/client.go)\<close>

text \<open>
  A Go \<open>string\<close> is a sequence of bytes; it is modelled as \<^typ>\<open>string\<close>, a list of
  8-bit characters, so \<^const>\<open>length\<close> is Go's \<open>len\<close> and \<^const>\<open>take\<close> is slicing
  \<open>s[:n]\<close>. A \<open>uint64\<close> is a \<^typ>\<open>64 word\<close>.
\<close>

type_synonym uint64 = "64 word"

text \<open>
  The hasher of Go's \<open>hash/fnv\<close>, as \<open>stringToNumericID\<close> uses it: \<open>New64a\<close> starts from
  the offset basis, \<open>Write\<close> folds every byte into the state (\<open>hash ^= c; hash *= prime64\<close>,
  in 64-bit arithmetic) and \<open>Sum64\<close> reads the state.
\<close>

definition offset64 :: uint64 where
  "offset64 = 14695981039346656037"

definition prime64 :: uint64 where
  "prime64 = 1099511628211"

definition New64a :: uint64 where
  "New64a = offset64"

fun Write64a :: "uint64 \<Rightarrow> string \<Rightarrow> uint64" where
  "Write64a hash [] = hash"
| "Write64a hash (c # data) = Write64a ((hash XOR of_char c) * prime64) data"

definition Sum64 :: "uint64 \<Rightarrow> uint64" where
  "Sum64 h = h"

definition stringToNumericID :: "string \<Rightarrow> uint64" where
  "stringToNumericID s = Sum64 (Write64a New64a s)"

text \<open>
  The FNV-1a hash as its specification gives it, on natural numbers: start from the
  64-bit offset basis; for every octet, first exclusive-or the octet into the hash, then
  multiply by the 64-bit FNV prime modulo \<open>2 ^ 64\<close>.
\<close>

fun fnv1a_64_from :: "nat \<Rightarrow> nat list \<Rightarrow> nat" where
  "fnv1a_64_from h [] = h"
| "fnv1a_64_from h (b # bs) = fnv1a_64_from (((h XOR b) * 1099511628211) mod 2 ^ 64) bs"

definition fnv1a_64 :: "nat list \<Rightarrow> nat" where
  "fnv1a_64 bs = fnv1a_64_from 14695981039346656037 bs"

definition bytes_of :: "string \<Rightarrow> nat list" where
  "bytes_of s = map of_char s"

section \<open>Values, errors and the outside world\<close>

text \<open>
  A \<open>float32\<close> and a \<open>float64\<close> are kept as their IEEE-754 bit patterns. The model never
  computes with them: converting, printing and comparing floating-point numbers is the
  work of the Go runtime and of the vector store, which enter the model as parameters.
\<close>

type_synonym float32 = "32 word"
type_synonym float64 = "64 word"

text \<open>
  A value of Go's \<open>interface{}\<close>, as the payload maps hold them: the values
  \<open>encoding/json\<close> decodes (\<open>nil\<close>, \<open>bool\<close>, \<open>float64\<close>, \<open>string\<close>, \<open>[]interface{}\<close>,
  \<open>map[string]interface{}\<close>) and the \<open>[]string\<close> that ingestion stores. A payload is a
  \<open>map[string]interface{}\<close>; reading a key that is absent (or reading a nil map) gives
  \<open>None\<close>.
\<close>

datatype any =
    VNil
  | VBool bool
  | VFloat64 float64
  | VString string
  | VStrings "string list"
  | VSlice "any list"
  | VMap "(string \<times> any) list"

type_synonym payload = "string \<rightharpoonup> any"

text \<open>
  The comma-ok type assertion \<open>v, ok := m[k].(string)\<close>: \<open>Some s\<close> when the key is
  present and holds a string, \<open>None\<close> otherwise. With the second result discarded
  (\<open>v, _ := m[k].(string)\<close>) the value is the empty string when the assertion fails.
\<close>

definition assert_string :: "payload \<Rightarrow> string \<Rightarrow> string option" where
  "assert_string m k = (case m k of Some (VString s) \<Rightarrow> Some s | _ \<Rightarrow> None)"

definition string_or_zero :: "payload \<Rightarrow> string \<Rightarrow> string" where
  "string_or_zero m k = (case assert_string m k of Some s \<Rightarrow> s | None \<Rightarrow> [])"

text \<open>
  Errors are values. \<open>Wrapped p e\<close> is \<open>fmt.Errorf("p: %w", e)\<close> and \<open>WrappedAt p i e\<close> is
  \<open>fmt.Errorf("p %d: %w", i, e)\<close>; \<open>StatusError p n\<close> is the error that reports an
  unexpected HTTP status \<open>n\<close> (its message also quotes the response body, which the model
  leaves out). \<open>IndexOutOfRange\<close> is the runtime panic of an index expression.
\<close>

datatype error =
    RequestError
  | TransportError
  | ReadError
  | DecodeError
  | ScanError
  | WriteError
  | StatusError string nat
  | EmptyEmbedding
  | NoResponseFromLLM
  | Wrapped string error
  | WrappedAt string nat error
  | IndexOutOfRange

text \<open>
  What an HTTP exchange comes to: the request could not be built
  (\<open>http.NewRequestWithContext\<close> failed), the exchange failed (\<open>httpClient.Do\<close> returned an
  error: network, timeout, cancelled context), or a response arrived with a status code
  and a body. A body that the code reads and decodes is unreadable (\<open>io.ReadAll\<close>
  failed), malformed (the JSON decoder failed) or decoded.
\<close>

datatype 'a http = RequestFailed | DoFailed | Response nat 'a

datatype 'a body = Unreadable | Malformed | Decoded 'a

definition StatusOK :: nat where "StatusOK = 200"
definition StatusNotFound :: nat where "StatusNotFound = 404"
definition StatusConflict :: nat where "StatusConflict = 409"

subsection \<open>The structs of the repository\<close>

record OllamaRequest =
  or_Model :: string
  or_Prompt :: string

record Embedder =
  emb_model :: string

record Message =
  Role :: string
  Content :: string

record ChatRequest =
  cr_Model :: string
  cr_Messages :: "Message list"
  cr_MaxTokens :: int
  cr_Temperature :: float64
  cr_Stream :: bool

record Choice =
  ch_Message :: Message
  ch_FinishReason :: string

record ChatResponse =
  resp_ID :: string
  resp_Choices :: "Choice list"

record DeltaChoice =
  dc_Content :: string
  dc_FinishReason :: string

record StreamDelta =
  sd_ID :: string
  sd_Choices :: "DeltaChoice list"

record LLMClient =
  apiKey :: string
  llm_model :: string

record VectorClient =
  baseURL :: string
  collectionName :: string
  vectorSize :: int

record Point =
  pt_ID :: string
  pt_Vector :: "float32 list"
  pt_Payload :: payload

text \<open>One element of the \<open>"points"\<close> array that \<open>UpsertPoints\<close> sends.\<close>

record QdrantPoint =
  qp_id :: uint64
  qp_vector :: "float32 list"
  qp_payload :: payload

text \<open>One element of the \<open>"result"\<close> array that \<open>Search\<close> decodes.\<close>

record RawResult =
  rr_ID :: any
  rr_Score :: float32
  rr_Payload :: payload

record SearchResult =
  sr_ID :: string
  sr_Score :: float32
  sr_Payload :: payload

record Source =
  src_ID :: string
  src_Module :: string
  src_Topic :: string
  src_Score :: float32

record QueryResult =
  Answer :: string
  Sources :: "Source list"

record KnowledgeEntry =
  ke_ID :: string
  ke_Module :: string
  ke_Topic :: string
  ke_Roles :: "string list"
  ke_QueryVariations :: "string list"
  ke_Answer :: string

subsection \<open>The trace of HTTP exchanges and the environment\<close>

text \<open>
  Every HTTP exchange the code attempts is recorded, in order, with what it came to:
  the URL, what the request body carries, and the outcome. The trace is the observable
  behaviour of the program towards the embedding engine, the vector store and the
  generation endpoint.
\<close>

datatype event =
    Embeddings string OllamaRequest "float64 list body http"
  | CollectionGet string "unit http"
  | CollectionPut string int string "unit http"
  | PointsPut string "QdrantPoint list" "unit http"
  | PointsSearch string "float32 list" int bool "RawResult list body http"
  | ChatCompletion string ChatRequest "ChatResponse body http"
  | ChatStream string ChatRequest "(string list \<times> bool) http"

type_synonym trace = "event list"

text \<open>
  The environment: the three external services, each answering a request as a function
  of the whole history of exchanges so far (so a service may answer the same request
  differently at different times), the file system with the JSON decoder behind it, and
  the primitives of the Go runtime that work on floating-point numbers or parse JSON.
  The body of a streaming response is the list of lines \<open>bufio.Scanner\<close> yields, and
  whether the scanner ends with an error instead of the end of the stream.
\<close>

record env =
  ollama :: "trace \<Rightarrow> string \<Rightarrow> OllamaRequest \<Rightarrow> float64 list body http"
  qdrant_get :: "trace \<Rightarrow> string \<Rightarrow> unit http"
  qdrant_create :: "trace \<Rightarrow> string \<Rightarrow> int \<Rightarrow> string \<Rightarrow> unit http"
  qdrant_upsert :: "trace \<Rightarrow> string \<Rightarrow> QdrantPoint list \<Rightarrow> unit http"
  qdrant_search :: "trace \<Rightarrow> string \<Rightarrow> float32 list \<Rightarrow> int \<Rightarrow> bool \<Rightarrow> RawResult list body http"
  groq :: "trace \<Rightarrow> string \<Rightarrow> ChatRequest \<Rightarrow> ChatResponse body http"
  groq_stream :: "trace \<Rightarrow> string \<Rightarrow> ChatRequest \<Rightarrow> (string list \<times> bool) http"
  read_entries :: "string \<Rightarrow> KnowledgeEntry list body"
  float32_of :: "float64 \<Rightarrow> float32"
  fmt_2f :: "float32 \<Rightarrow> string"
  fmt_v :: "any \<Rightarrow> string"
  unmarshal_StreamDelta :: "string \<Rightarrow> StreamDelta option"

section \<open>The embedder (package llm)\<close>

definition ollamaEmbeddingURL :: string where
  "ollamaEmbeddingURL = ''http://localhost:11434/api/embeddings''"

text \<open>\<open>float64ToFloat32\<close> fills a slice of the same length, index by index.\<close>

fun float64ToFloat32_loop :: "env \<Rightarrow> nat \<Rightarrow> float64 list \<Rightarrow> float32 list \<Rightarrow> float32 list" where
  "float64ToFloat32_loop w i [] out = out"
| "float64ToFloat32_loop w i (v # rest) out =
     float64ToFloat32_loop w (i + 1) rest (out[i := float32_of w v])"

definition float64ToFloat32 :: "env \<Rightarrow> float64 list \<Rightarrow> float32 list" where
  "float64ToFloat32 w xs = float64ToFloat32_loop w 0 xs (replicate (length xs) 0)"

text \<open>
  \<open>embedSingle\<close>: truncate (\<open>len\<close> and the slice \<open>text[:8000]\<close> count bytes), post the
  request, read the whole body, check the status, decode, reject an empty embedding.
  \<open>json.Marshal\<close> cannot fail on a struct of two strings, so that branch is left out.
\<close>

definition embedSingle ::
  "env \<Rightarrow> Embedder \<Rightarrow> string \<Rightarrow> trace \<Rightarrow> (error + float32 list) \<times> trace" where
  "embedSingle w e text0 tr =
     (let text = (if length text0 > 8000 then take 8000 text0 else text0);
          reqBody = \<lparr>or_Model = emb_model e, or_Prompt = text\<rparr>;
          resp = ollama w tr ollamaEmbeddingURL reqBody;
          tr' = tr @ [Embeddings ollamaEmbeddingURL reqBody resp]
      in (case resp of
            RequestFailed \<Rightarrow> (Inl (Wrapped ''create request'' RequestError), tr')
          | DoFailed \<Rightarrow> (Inl (Wrapped ''do request'' TransportError), tr')
          | Response status b \<Rightarrow>
              if b = Unreadable then (Inl (Wrapped ''read response'' ReadError), tr')
              else if status \<noteq> StatusOK then (Inl (StatusError ''ollama error'' status), tr')
              else (case b of
                      Decoded embedding \<Rightarrow>
                        if length embedding = 0 then (Inl EmptyEmbedding, tr')
                        else (Inr (float64ToFloat32 w embedding), tr')
                    | _ \<Rightarrow> (Inl (Wrapped ''decode response'' DecodeError), tr'))))"

definition EmbedSingle ::
  "env \<Rightarrow> Embedder \<Rightarrow> string \<Rightarrow> trace \<Rightarrow> (error + float32 list) \<times> trace" where
  "EmbedSingle w e text tr = embedSingle w e text tr"

text \<open>
  \<open>Embed\<close>: a slice of \<open>len(texts)\<close> nil vectors, filled index by index; the first
  failing item returns \<open>nil\<close> and the wrapped error. The progress line logged every ten
  items is not modelled.
\<close>

fun Embed_loop ::
  "env \<Rightarrow> Embedder \<Rightarrow> nat \<Rightarrow> string list \<Rightarrow> float32 list list \<Rightarrow> trace
    \<Rightarrow> (error + float32 list list) \<times> trace" where
  "Embed_loop w e i [] embeddings tr = (Inr embeddings, tr)"
| "Embed_loop w e i (text # rest) embeddings tr =
     (case embedSingle w e text tr of
        (Inl err, tr') \<Rightarrow> (Inl (WrappedAt ''embed text'' i err), tr')
      | (Inr emb, tr') \<Rightarrow> Embed_loop w e (i + 1) rest (embeddings[i := emb]) tr')"

definition Embed ::
  "env \<Rightarrow> Embedder \<Rightarrow> string list \<Rightarrow> trace \<Rightarrow> (error + float32 list list) \<times> trace" where
  "Embed w e texts tr = Embed_loop w e 0 texts (replicate (length texts) []) tr"

section \<open>The vector store client (package vector)\<close>

text \<open>
  \<open>EnsureCollection\<close> asks for the collection's info; \<open>httpClient.Get\<close> builds and sends
  the request in one call, so both of its failures are the same wrapped error.
  \<open>createCollection\<close> sends the size and the distance \<open>"Cosine"\<close>.
\<close>

definition createCollection :: "env \<Rightarrow> VectorClient \<Rightarrow> trace \<Rightarrow> error option \<times> trace" where
  "createCollection w c tr =
     (let url = baseURL c @ ''/collections/'' @ collectionName c;
          resp = qdrant_create w tr url (vectorSize c) ''Cosine'';
          tr' = tr @ [CollectionPut url (vectorSize c) ''Cosine'' resp]
      in (case resp of
            RequestFailed \<Rightarrow> (Some (Wrapped ''create request'' RequestError), tr')
          | DoFailed \<Rightarrow> (Some (Wrapped ''create collection'' TransportError), tr')
          | Response status _ \<Rightarrow>
              if status = StatusOK \<or> status = StatusConflict then (None, tr')
              else (Some (StatusError ''create collection failed'' status), tr')))"

definition EnsureCollection :: "env \<Rightarrow> VectorClient \<Rightarrow> trace \<Rightarrow> error option \<times> trace" where
  "EnsureCollection w c tr =
     (let url = baseURL c @ ''/collections/'' @ collectionName c;
          resp = qdrant_get w tr url;
          tr' = tr @ [CollectionGet url resp]
      in (case resp of
            RequestFailed \<Rightarrow> (Some (Wrapped ''check collection'' RequestError), tr')
          | DoFailed \<Rightarrow> (Some (Wrapped ''check collection'' TransportError), tr')
          | Response status _ \<Rightarrow>
              if status = StatusOK then (None, tr')
              else if status = StatusNotFound then createCollection w c tr'
              else createCollection w c tr'))"

text \<open>
  \<open>UpsertPoints\<close> fills a slice of \<open>len(points)\<close> maps, index by index, and sends them
  in one request to the \<open>points?wait=true\<close> URL. The code discards the error of
  \<open>json.Marshal\<close>; the event records the points the body is built from.
\<close>

fun UpsertPoints_loop :: "nat \<Rightarrow> Point list \<Rightarrow> QdrantPoint list \<Rightarrow> QdrantPoint list" where
  "UpsertPoints_loop i [] qdrantPoints = qdrantPoints"
| "UpsertPoints_loop i (p # rest) qdrantPoints =
     UpsertPoints_loop (i + 1) rest
       (qdrantPoints[i := \<lparr>qp_id = stringToNumericID (pt_ID p), qp_vector = pt_Vector p,
                              qp_payload = pt_Payload p\<rparr>])"

definition UpsertPoints ::
  "env \<Rightarrow> VectorClient \<Rightarrow> Point list \<Rightarrow> trace \<Rightarrow> error option \<times> trace" where
  "UpsertPoints w c points tr =
     (let qdrantPoints = UpsertPoints_loop 0 points
            (replicate (length points) \<lparr>qp_id = 0, qp_vector = [], qp_payload = Map.empty\<rparr>);
          url = baseURL c @ ''/collections/'' @ collectionName c @ ''/points?wait=true'';
          resp = qdrant_upsert w tr url qdrantPoints;
          tr' = tr @ [PointsPut url qdrantPoints resp]
      in (case resp of
            RequestFailed \<Rightarrow> (Some (Wrapped ''create request'' RequestError), tr')
          | DoFailed \<Rightarrow> (Some (Wrapped ''upsert points'' TransportError), tr')
          | Response status _ \<Rightarrow>
              if status \<noteq> StatusOK then (Some (StatusError ''upsert failed'' status), tr')
              else (None, tr')))"

text \<open>
  \<open>Search\<close>: the identifier of a result is the payload's \<open>"id"\<close> when that is a string,
  and the raw point id printed with \<open>%v\<close> otherwise.
\<close>

fun Search_loop :: "env \<Rightarrow> nat \<Rightarrow> RawResult list \<Rightarrow> SearchResult list \<Rightarrow> SearchResult list" where
  "Search_loop w i [] results = results"
| "Search_loop w i (r # rest) results =
     (let id = (case assert_string (rr_Payload r) ''id'' of
                  Some idVal \<Rightarrow> idVal
                | None \<Rightarrow> fmt_v w (rr_ID r))
      in Search_loop w (i + 1) rest
           (results[i := \<lparr>sr_ID = id, sr_Score = rr_Score r, sr_Payload = rr_Payload r\<rparr>]))"

definition Search ::
  "env \<Rightarrow> VectorClient \<Rightarrow> float32 list \<Rightarrow> int \<Rightarrow> trace \<Rightarrow> (error + SearchResult list) \<times> trace" where
  "Search w c vec k tr =
     (let url = baseURL c @ ''/collections/'' @ collectionName c @ ''/points/search'';
          resp = qdrant_search w tr url vec k True;
          tr' = tr @ [PointsSearch url vec k True resp]
      in (case resp of
            RequestFailed \<Rightarrow> (Inl (Wrapped ''create request'' RequestError), tr')
          | DoFailed \<Rightarrow> (Inl (Wrapped ''search'' TransportError), tr')
          | Response status b \<Rightarrow>
              if status \<noteq> StatusOK then (Inl (StatusError ''search failed'' status), tr')
              else (case b of
                      Decoded result \<Rightarrow>
                        (Inr (Search_loop w 0 result
                                (replicate (length result)
                                   \<lparr>sr_ID = [], sr_Score = 0, sr_Payload = Map.empty\<rparr>)), tr')
                    | _ \<Rightarrow> (Inl (Wrapped ''decode response'' DecodeError), tr'))))"

section \<open>The generation client (package llm)\<close>

definition groqAPIURL :: string where
  "groqAPIURL = ''https://api.groq.com/openai/v1/chat/completions''"

text \<open>The sampling temperature \<open>0.7\<close>, as the bits of the \<open>float64\<close> constant.\<close>

definition temperature_0_7 :: float64 where
  "temperature_0_7 = 0x3FE6666666666666"

definition CreateChatCompletion ::
  "env \<Rightarrow> LLMClient \<Rightarrow> Message list \<Rightarrow> int \<Rightarrow> trace \<Rightarrow> (error + ChatResponse) \<times> trace" where
  "CreateChatCompletion w c messages maxTokens tr =
     (let reqBody = \<lparr>cr_Model = llm_model c, cr_Messages = messages, cr_MaxTokens = maxTokens,
                     cr_Temperature = temperature_0_7, cr_Stream = False\<rparr>;
          resp = groq w tr groqAPIURL reqBody;
          tr' = tr @ [ChatCompletion groqAPIURL reqBody resp]
      in (case resp of
            RequestFailed \<Rightarrow> (Inl (Wrapped ''create request'' RequestError), tr')
          | DoFailed \<Rightarrow> (Inl (Wrapped ''do request'' TransportError), tr')
          | Response status b \<Rightarrow>
              if status \<noteq> StatusOK then (Inl (StatusError ''groq error'' status), tr')
              else (case b of
                      Decoded chatResp \<Rightarrow> (Inr chatResp, tr')
                    | _ \<Rightarrow> (Inl (Wrapped ''decode response'' DecodeError), tr'))))"

text \<open>\<open>strings.HasPrefix\<close> and \<open>strings.TrimPrefix\<close>.\<close>

definition HasPrefix :: "string \<Rightarrow> string \<Rightarrow> bool" where
  "HasPrefix s pre = (length s \<ge> length pre \<and> take (length pre) s = pre)"

definition TrimPrefix :: "string \<Rightarrow> string \<Rightarrow> string" where
  "TrimPrefix s pre = (if HasPrefix s pre then drop (length pre) s else s)"

text \<open>
  The output sink is an \<open>io.Writer\<close>: the model keeps the fragments written so far, in
  order, and a function \<open>wr\<close> that says whether writing a fragment after those succeeds.
  The inner loop of \<open>StreamChatCompletion\<close> writes every non-empty \<open>delta.content\<close> of one
  chunk; a failed write returns at once.
\<close>

type_synonym writer = "string list \<Rightarrow> string \<Rightarrow> bool"

fun write_choices :: "writer \<Rightarrow> DeltaChoice list \<Rightarrow> string list \<Rightarrow> error option \<times> string list" where
  "write_choices wr [] out = (None, out)"
| "write_choices wr (choice # rest) out =
     (if dc_Content choice \<noteq> []
      then (if wr out (dc_Content choice)
            then write_choices wr rest (out @ [dc_Content choice])
            else (Some (Wrapped ''write stream'' WriteError), out))
      else write_choices wr rest out)"

text \<open>
  The scanner loop: a line without the prefix \<open>"data: "\<close> is skipped; the data \<open>[DONE]\<close>
  breaks the loop; data that does not unmarshal is skipped. After the loop the function
  returns \<open>scanner.Err()\<close>: \<open>nil\<close> after a break or at the end of the stream, the
  scanner's error when reading stopped with one.
\<close>

fun scan_loop ::
  "env \<Rightarrow> writer \<Rightarrow> string list \<Rightarrow> bool \<Rightarrow> string list \<Rightarrow> error option \<times> string list" where
  "scan_loop w wr [] scanner_failed out = (if scanner_failed then Some ScanError else None, out)"
| "scan_loop w wr (line # rest) scanner_failed out =
     (if \<not> HasPrefix line ''data: '' then scan_loop w wr rest scanner_failed out
      else let data = TrimPrefix line ''data: '' in
        if data = ''[DONE]'' then (None, out)
        else (case unmarshal_StreamDelta w data of
                None \<Rightarrow> scan_loop w wr rest scanner_failed out
              | Some delta \<Rightarrow>
                  (case write_choices wr (sd_Choices delta) out of
                     (Some err, out') \<Rightarrow> (Some err, out')
                   | (None, out') \<Rightarrow> scan_loop w wr rest scanner_failed out')))"

definition StreamChatCompletion ::
  "env \<Rightarrow> LLMClient \<Rightarrow> Message list \<Rightarrow> int \<Rightarrow> writer \<Rightarrow> string list \<Rightarrow> trace
    \<Rightarrow> error option \<times> string list \<times> trace" where
  "StreamChatCompletion w c messages maxTokens wr out tr =
     (let reqBody = \<lparr>cr_Model = llm_model c, cr_Messages = messages, cr_MaxTokens = maxTokens,
                     cr_Temperature = temperature_0_7, cr_Stream = True\<rparr>;
          resp = groq_stream w tr groqAPIURL reqBody;
          tr' = tr @ [ChatStream groqAPIURL reqBody resp]
      in (case resp of
            RequestFailed \<Rightarrow> (Some (Wrapped ''create request'' RequestError), out, tr')
          | DoFailed \<Rightarrow> (Some (Wrapped ''do request'' TransportError), out, tr')
          | Response status b \<Rightarrow>
              if status \<noteq> StatusOK then (Some (StatusError ''groq error'' status), out, tr')
              else (case scan_loop w wr (fst b) (snd b) out of
                      (res, out') \<Rightarrow> (res, out', tr'))))"

section \<open>Ingestion (package ingest)\<close>

record IngestService =
  ing_embedder :: Embedder
  ing_vectorClient :: VectorClient

text \<open>\<open>strings.Join\<close>.\<close>

fun strings_Join :: "string list \<Rightarrow> string \<Rightarrow> string" where
  "strings_Join [] sep = []"
| "strings_Join [x] sep = x"
| "strings_Join (x # y # rest) sep = x @ sep @ strings_Join (y # rest) sep"

text \<open>\<open>entryToText\<close>: the writes to the string builder, in order.\<close>

definition entryToText :: "KnowledgeEntry \<Rightarrow> string" where
  "entryToText entry =
     (let sb = [];
          sb = sb @ ''Module: '';
          sb = sb @ ke_Module entry;
          sb = sb @ ''\<newline>Topic: '';
          sb = sb @ ke_Topic entry;
          sb = sb @ ''\<newline>Questions: '';
          sb = sb @ strings_Join (ke_QueryVariations entry) ''; '';
          sb = sb @ ''\<newline>Answer: '';
          sb = sb @ ke_Answer entry
      in sb)"

fun texts_loop :: "nat \<Rightarrow> KnowledgeEntry list \<Rightarrow> string list \<Rightarrow> string list" where
  "texts_loop i [] texts = texts"
| "texts_loop i (entry # rest) texts = texts_loop (i + 1) rest (texts[i := entryToText entry])"

text \<open>
  The loop that builds the points reads \<open>embeddings[i]\<close> and \<open>texts[i]\<close>; an index out
  of range is a panic, kept as a result of the model.
\<close>

fun points_loop ::
  "nat \<Rightarrow> KnowledgeEntry list \<Rightarrow> float32 list list \<Rightarrow> string list \<Rightarrow> Point list
    \<Rightarrow> error + Point list" where
  "points_loop i [] embeddings texts points = Inr points"
| "points_loop i (entry # rest) embeddings texts points =
     (if i < length embeddings \<and> i < length texts
      then points_loop (i + 1) rest embeddings texts
             (points[i := \<lparr>pt_ID = ke_ID entry,
                            pt_Vector = embeddings ! i,
                            pt_Payload =
                              [''id'' \<mapsto> VString (ke_ID entry),
                               ''module'' \<mapsto> VString (ke_Module entry),
                               ''topic'' \<mapsto> VString (ke_Topic entry),
                               ''roles'' \<mapsto> VStrings (ke_Roles entry),
                               ''query_variations'' \<mapsto> VStrings (ke_QueryVariations entry),
                               ''answer'' \<mapsto> VString (ke_Answer entry),
                               ''text'' \<mapsto> VString (texts ! i)]\<rparr>])
      else Inl IndexOutOfRange)"

definition processBatch ::
  "env \<Rightarrow> IngestService \<Rightarrow> KnowledgeEntry list \<Rightarrow> trace \<Rightarrow> error option \<times> trace" where
  "processBatch w s entries tr =
     (let texts = texts_loop 0 entries (replicate (length entries) [])
      in (case Embed w (ing_embedder s) texts tr of
            (Inl err, tr') \<Rightarrow> (Some (Wrapped ''embed texts'' err), tr')
          | (Inr embeddings, tr') \<Rightarrow>
              (case points_loop 0 entries embeddings texts
                      (replicate (length entries)
                         \<lparr>pt_ID = [], pt_Vector = [], pt_Payload = Map.empty\<rparr>) of
                 Inl panic \<Rightarrow> (Some panic, tr')
               | Inr points \<Rightarrow>
                   (case UpsertPoints w (ing_vectorClient s) points tr' of
                      (Some err, tr'') \<Rightarrow> (Some (Wrapped ''upsert points'' err), tr'')
                    | (None, tr'') \<Rightarrow> (None, tr'')))))"





section \<open>The query pipeline (package rag)\<close>

record RagService =
  rag_llmClient :: LLMClient
  rag_embedder :: Embedder
  rag_vectorClient :: VectorClient
  topK :: int

text \<open>The verb \<open>%d\<close> of \<open>fmt\<close> on a non-negative integer: its decimal digits.\<close>

fun fmt_d :: "nat \<Rightarrow> string" where
  "fmt_d n = (if n < 10 then [char_of (48 + n)] else fmt_d (n div 10) @ [char_of (48 + n mod 10)])"

declare fmt_d.simps [simp del]

text \<open>
  \<open>buildContext\<close>: a result whose payload has no string under \<open>"text"\<close> is skipped
  (\<open>continue\<close>); the others write a header with the position \<open>i + 1\<close> in the result list
  and the score printed with \<open>%.2f\<close>, the text and an empty line.
\<close>

fun buildContext_loop :: "env \<Rightarrow> nat \<Rightarrow> SearchResult list \<Rightarrow> string \<Rightarrow> string" where
  "buildContext_loop w i [] sb = sb"
| "buildContext_loop w i (r # rest) sb =
     (case assert_string (sr_Payload r) ''text'' of
        None \<Rightarrow> buildContext_loop w (i + 1) rest sb
      | Some text \<Rightarrow>
          (let sb = sb @ (''--- Document '' @ fmt_d (i + 1) @ '' (score: '' @
                          fmt_2f w (sr_Score r) @ '') ---\<newline>'');
               sb = sb @ text;
               sb = sb @ ''\<newline>\<newline>''
           in buildContext_loop w (i + 1) rest sb))"

definition buildContext :: "env \<Rightarrow> SearchResult list \<Rightarrow> string" where
  "buildContext w results = buildContext_loop w 0 results []"

definition systemPrompt :: string where
  \<open>systemPrompt = concat
    [''You are the official Support Assistant for SyntraFlow - a comprehensive employee management system.\<newline>'',
     ''\<newline>'',
     ''## About SyntraFlow:\<newline>'',
     ''SyntraFlow is an all-in-one Employee Management System (EMS) designed to streamline HR operations for organizations of all sizes. Key features include:\<newline>'',
     ''- **Authentication & Access Control**: Secure sign-in, sign-up, password management, and role-based permissions\<newline>'',
     ''- **Employee Management**: Complete employee lifecycle management including onboarding, profiles, and document handling\<newline>'',
     ''- **Attendance & Rota Management**: Shift scheduling, clock in/out tracking, terminals, and live attendance monitoring\<newline>'',
     ''- **Leave Management**: Leave requests, approvals, balances, WFH requests, and policy configuration\<newline>'',
     ''- **Payroll & Salary**: Salary elements, payroll processing, and payslip generation\<newline>'',
     ''- **Dashboard**: Real-time performance metrics, attendance insights, meetings, and company events\<newline>'',
     ''- **Calendar**: Meeting scheduling, time insights, and team availability\<newline>'',
     ''- **Policy Manager**: Configure leave policies, shift policies, WFH rules, and compensation structures\<newline>'',
     ''- **Reports**: Time & attendance reports, lateness tracking, and live tracking\<newline>'',
     ''\<newline>'',
     ''## Your Role:\<newline>'',
     ''- You are the primary support resource for SyntraFlow users\<newline>'',
     ''- Help employees and administrators navigate the platform\<newline>'',
     ''- Provide clear, step-by-step guidance for all features\<newline>'',
     ''\<newline>'',
     ''## Guidelines:\<newline>'',
     ''1. For questions about what SyntraFlow is, use the About SyntraFlow section above\<newline>'',
     ''2. For specific feature questions, use the provided context from the knowledge base\<newline>'',
     ''3. Be concise but thorough - include all necessary steps\<newline>'',
     ''4. Use numbered lists for step-by-step instructions\<newline>'',
     ''5. If the context doesn'' @ [CHR 0x27] @ ''t have specific details, say so politely and offer to help with something else'' @ ''\<newline>'',
     ''6. Never make up features or steps\<newline>'',
     ''7. Be professional, friendly, and helpful\<newline>'',
     ''\<newline>'',
     ''## Response Format:\<newline>'',
     ''- Start with a direct answer\<newline>'',
     ''- Follow with step-by-step instructions if applicable\<newline>'',
     ''- End with a helpful tip if relevant'']\<close>

text \<open>The two messages that both \<open>Query\<close> and \<open>StreamQuery\<close> build.\<close>

definition build_messages :: "string \<Rightarrow> string \<Rightarrow> Message list" where
  "build_messages context_text userQuery =
     [\<lparr>Role = ''system'', Content = systemPrompt\<rparr>,
      \<lparr>Role = ''user'',
       Content = ''Context from SyntraFlow Knowledge Base:\<newline>'' @ context_text @
                 ''\<newline>\<newline>User Question: '' @ userQuery\<rparr>]"

fun sources_loop :: "nat \<Rightarrow> SearchResult list \<Rightarrow> Source list \<Rightarrow> Source list" where
  "sources_loop i [] sources = sources"
| "sources_loop i (r # rest) sources =
     (let module = string_or_zero (sr_Payload r) ''module'';
          topic = string_or_zero (sr_Payload r) ''topic'';
          id = string_or_zero (sr_Payload r) ''id''
      in sources_loop (i + 1) rest
           (sources[i := \<lparr>src_ID = id, src_Module = module, src_Topic = topic,
                           src_Score = sr_Score r\<rparr>]))"

definition Query ::
  "env \<Rightarrow> RagService \<Rightarrow> string \<Rightarrow> trace \<Rightarrow> (error + QueryResult) \<times> trace" where
  "Query w s userQuery tr =
     (case EmbedSingle w (rag_embedder s) userQuery tr of
        (Inl err, tr1) \<Rightarrow> (Inl (Wrapped ''embed query'' err), tr1)
      | (Inr queryEmbedding, tr1) \<Rightarrow>
          (case Search w (rag_vectorClient s) queryEmbedding (topK s) tr1 of
             (Inl err, tr2) \<Rightarrow> (Inl (Wrapped ''search'' err), tr2)
           | (Inr results, tr2) \<Rightarrow>
               (let context_text = buildContext w results;
                    messages = build_messages context_text userQuery
                in (case CreateChatCompletion w (rag_llmClient s) messages 1024 tr2 of
                      (Inl err, tr3) \<Rightarrow> (Inl (Wrapped ''llm completion'' err), tr3)
                    | (Inr resp, tr3) \<Rightarrow>
                        if length (resp_Choices resp) = 0 then (Inl NoResponseFromLLM, tr3)
                        else (let sources = sources_loop 0 results
                                    (replicate (length results)
                                       \<lparr>src_ID = [], src_Module = [], src_Topic = [],
                                        src_Score = 0\<rparr>)
                              in (Inr \<lparr>Answer = Content (ch_Message (resp_Choices resp ! 0)),
                                       Sources = sources\<rparr>, tr3))))))"

definition StreamQuery ::
  "env \<Rightarrow> RagService \<Rightarrow> string \<Rightarrow> writer \<Rightarrow> string list \<Rightarrow> trace
    \<Rightarrow> error option \<times> string list \<times> trace" where
  "StreamQuery w s userQuery wr out tr =
     (case EmbedSingle w (rag_embedder s) userQuery tr of
        (Inl err, tr1) \<Rightarrow> (Some (Wrapped ''embed query'' err), out, tr1)
      | (Inr queryEmbedding, tr1) \<Rightarrow>
          (case Search w (rag_vectorClient s) queryEmbedding (topK s) tr1 of
             (Inl err, tr2) \<Rightarrow> (Some (Wrapped ''search'' err), out, tr2)
           | (Inr results, tr2) \<Rightarrow>
               (let context_text = buildContext w results;
                    messages = build_messages context_text userQuery
                in StreamChatCompletion w (rag_llmClient s) messages 1024 wr out tr2)))"

section \<open>Constructors\<close>

text \<open>
  \<open>NewEmbedder\<close>, \<open>llm.NewClient\<close>, \<open>rag.NewService\<close> and \<open>ingest.NewService\<close> fix the
  models and the number of results to retrieve.
\<close>

definition NewEmbedder :: Embedder where
  "NewEmbedder = \<lparr>emb_model = ''nomic-embed-text:latest''\<rparr>"

definition NewLLMClient :: "string \<Rightarrow> LLMClient" where
  "NewLLMClient key =
     \<lparr>apiKey = key, llm_model = ''meta-llama/llama-4-maverick-17b-128e-instruct''\<rparr>"

definition NewRagService :: "LLMClient \<Rightarrow> Embedder \<Rightarrow> VectorClient \<Rightarrow> RagService" where
  "NewRagService llmClient embedder vectorClient =
     \<lparr>rag_llmClient = llmClient, rag_embedder = embedder, rag_vectorClient = vectorClient,
      topK = 5\<rparr>"

definition NewIngestService :: "Embedder \<Rightarrow> VectorClient \<Rightarrow> IngestService" where
  "NewIngestService embedder vectorClient =
     \<lparr>ing_embedder = embedder, ing_vectorClient = vectorClient\<rparr>"

section \<open>Notions the properties are stated with\<close>

text \<open>The event of posting one text to the embedding engine, and the engine's answer.\<close>

definition embed_event :: "Embedder \<Rightarrow> string \<Rightarrow> float64 list body http \<Rightarrow> event" where
  "embed_event e text reply =
     Embeddings ollamaEmbeddingURL \<lparr>or_Model = emb_model e, or_Prompt = take 8000 text\<rparr> reply"

definition embed_reply :: "env \<Rightarrow> Embedder \<Rightarrow> string \<Rightarrow> trace \<Rightarrow> float64 list body http" where
  "embed_reply w e text tr =
     ollama w tr ollamaEmbeddingURL \<lparr>or_Model = emb_model e, or_Prompt = take 8000 text\<rparr>"

text \<open>The prompts sent to the embedding engine, in order.\<close>

fun prompts_sent :: "trace \<Rightarrow> string list" where
  "prompts_sent [] = []"
| "prompts_sent (Embeddings url req reply # tr) = or_Prompt req # prompts_sent tr"
| "prompts_sent (ev # tr) = prompts_sent tr"

text \<open>The source entry \<open>Query\<close> builds from one search result.\<close>

definition source_of :: "SearchResult \<Rightarrow> Source" where
  "source_of r =
     \<lparr>src_ID = string_or_zero (sr_Payload r) ''id'',
      src_Module = string_or_zero (sr_Payload r) ''module'',
      src_Topic = string_or_zero (sr_Payload r) ''topic'',
      src_Score = sr_Score r\<rparr>"

text \<open>The search result \<open>Search\<close> builds from one element of the store's answer.\<close>

definition result_of :: "env \<Rightarrow> RawResult \<Rightarrow> SearchResult" where
  "result_of w r =
     \<lparr>sr_ID = (case assert_string (rr_Payload r) ''id'' of
                 Some idVal \<Rightarrow> idVal
               | None \<Rightarrow> fmt_v w (rr_ID r)),
      sr_Score = rr_Score r,
      sr_Payload = rr_Payload r\<rparr>"

text \<open>
  A result has a stored text when its payload holds a string under \<open>"text"\<close>. The
  section of the context block for the result at rank \<open>i\<close> (counted from 1): the
  labelled header line, the stored text, an empty line.
\<close>

definition has_text :: "SearchResult \<Rightarrow> bool" where
  "has_text r = (assert_string (sr_Payload r) ''text'' \<noteq> None)"

definition context_section :: "env \<Rightarrow> nat \<times> SearchResult \<Rightarrow> string" where
  "context_section w ir =
     ''--- Document '' @ fmt_d (fst ir) @ '' (score: '' @ fmt_2f w (sr_Score (snd ir)) @
     '') ---\<newline>'' @ string_or_zero (sr_Payload (snd ir)) ''text'' @ ''\<newline>\<newline>''"

definition ranked :: "'a list \<Rightarrow> (nat \<times> 'a) list" where
  "ranked xs = zip [1..<Suc (length xs)] xs"

text \<open>The request \<open>CreateChatCompletion\<close> sends, and the URL \<open>Search\<close> posts to.\<close>

definition chat_request :: "LLMClient \<Rightarrow> Message list \<Rightarrow> int \<Rightarrow> bool \<Rightarrow> ChatRequest" where
  "chat_request c messages maxTokens stream =
     \<lparr>cr_Model = llm_model c, cr_Messages = messages, cr_MaxTokens = maxTokens,
      cr_Temperature = temperature_0_7, cr_Stream = stream\<rparr>"

definition search_url :: "VectorClient \<Rightarrow> string" where
  "search_url c = baseURL c @ ''/collections/'' @ collectionName c @ ''/points/search''"

text \<open>
  The chunks of a streaming response: the data of the lines that carry the prefix
  \<open>"data: "\<close>, up to the sentinel \<open>[DONE]\<close>; the fragments of a chunk are the non-empty
  \<open>delta.content\<close> of its choices, none when the chunk does not parse.
\<close>

definition data_lines :: "string list \<Rightarrow> string list" where
  "data_lines lines = map (drop 6) (filter (\<lambda>l. take 6 l = ''data: '') lines)"

definition chunks :: "string list \<Rightarrow> string list" where
  "chunks lines = takeWhile (\<lambda>d. d \<noteq> ''[DONE]'') (data_lines lines)"

definition fragments :: "env \<Rightarrow> string \<Rightarrow> string list" where
  "fragments w d =
     (case unmarshal_StreamDelta w d of
        None \<Rightarrow> []
      | Some delta \<Rightarrow> filter (\<lambda>f. f \<noteq> []) (map dc_Content (sd_Choices delta)))"

definition stream_fragments :: "env \<Rightarrow> string list \<Rightarrow> string list" where
  "stream_fragments w lines = concat (map (fragments w) (chunks lines))"

text \<open>
  The payload and the point that ingestion builds for an entry and its vector, the
  element of the upsert request for a point, and the URLs of the store.
\<close>

definition payload_of :: "KnowledgeEntry \<Rightarrow> payload" where
  "payload_of entry =
     [''id'' \<mapsto> VString (ke_ID entry),
      ''module'' \<mapsto> VString (ke_Module entry),
      ''topic'' \<mapsto> VString (ke_Topic entry),
      ''roles'' \<mapsto> VStrings (ke_Roles entry),
      ''query_variations'' \<mapsto> VStrings (ke_QueryVariations entry),
      ''answer'' \<mapsto> VString (ke_Answer entry),
      ''text'' \<mapsto> VString (entryToText entry)]"

definition point_of :: "KnowledgeEntry \<times> float32 list \<Rightarrow> Point" where
  "point_of ev = \<lparr>pt_ID = ke_ID (fst ev), pt_Vector = snd ev, pt_Payload = payload_of (fst ev)\<rparr>"

definition qdrant_point_of :: "Point \<Rightarrow> QdrantPoint" where
  "qdrant_point_of p =
     \<lparr>qp_id = stringToNumericID (pt_ID p), qp_vector = pt_Vector p, qp_payload = pt_Payload p\<rparr>"

definition collection_url :: "VectorClient \<Rightarrow> string" where
  "collection_url c = baseURL c @ ''/collections/'' @ collectionName c"

definition points_url :: "VectorClient \<Rightarrow> string" where
  "points_url c = baseURL c @ ''/collections/'' @ collectionName c @ ''/points?wait=true''"




text \<open>The create requests of a trace: URL, vector size and distance of each.\<close>

fun create_calls :: "trace \<Rightarrow> (string \<times> int \<times> string) list" where
  "create_calls [] = []"
| "create_calls (CollectionPut url n d reply # tr) = (url, n, d) # create_calls tr"
| "create_calls (ev # tr) = create_calls tr"

text \<open>
  A trace shows that a collection exists when the store has answered an existence check
  for its URL with 200, or a create for its URL with 200 or 409. A store answers and
  keeps its collections when it answers every existence check with a status, with 200
  once the trace shows that the collection exists, and answers every create with 200
  or 409.
\<close>

definition shows_collection :: "trace \<Rightarrow> string \<Rightarrow> bool" where
  "shows_collection tr url =
     list_ex (\<lambda>ev. case ev of
                      CollectionGet u (Response st b) \<Rightarrow> u = url \<and> st = StatusOK
                    | CollectionPut u n d (Response st b) \<Rightarrow>
                        u = url \<and> (st = StatusOK \<or> st = StatusConflict)
                    | _ \<Rightarrow> False) tr"

definition answering_store :: "env \<Rightarrow> string \<Rightarrow> bool" where
  "answering_store w url =
     (\<forall>tr. (\<exists>st. qdrant_get w tr url = Response st ()) \<and>
           (shows_collection tr url \<longrightarrow> qdrant_get w tr url = Response StatusOK ()) \<and>
           (\<forall>n d. qdrant_create w tr url n d = Response StatusOK () \<or>
                  qdrant_create w tr url n d = Response StatusConflict ()))"





section \<open>A sample environment\<close>

text \<open>
  One environment in which every service answers: the embedding engine returns a
  one-dimensional vector (and fails in transport on the prompt \<open>boom\<close>); the store
  reports a collection as existing once the trace shows it, answers a create for
  such a collection with 409 and any other create with 200, accepts every upsert, and
  finds three points in the collection \<open>knowledge_base\<close> (the second without a stored
  text, string identifier or topic) and none elsewhere; the generator answers with one choice, and streams two
  fragments, a truncated chunk and a closing chunk before the sentinel. The JSON decoder
  of the stream is the table of the chunks that occur.
\<close>

definition sample_results :: "RawResult list" where
  "sample_results =
     [\<lparr>rr_ID = VFloat64 1, rr_Score = 0x3F666666,
       rr_Payload = [''id'' \<mapsto> VString ''kb-1'', ''module'' \<mapsto> VString ''Leave'',
                     ''topic'' \<mapsto> VString ''Requests'', ''text'' \<mapsto> VString ''Apply for leave'']\<rparr>,
      \<lparr>rr_ID = VFloat64 2, rr_Score = 0x3F4CCCCD,
       rr_Payload = [''module'' \<mapsto> VString ''Payroll'', ''id'' \<mapsto> VFloat64 7]\<rparr>,
      \<lparr>rr_ID = VFloat64 3, rr_Score = 0x3F333333,
       rr_Payload = [''id'' \<mapsto> VString ''kb-3'', ''module'' \<mapsto> VString ''Payroll'',
                     ''topic'' \<mapsto> VString ''Payslips'', ''text'' \<mapsto> VString ''Open the payslip'']\<rparr>]"

definition sample_entry :: "string \<Rightarrow> KnowledgeEntry" where
  "sample_entry ident =
     \<lparr>ke_ID = ident, ke_Module = ''Leave'', ke_Topic = ''Requests'',
      ke_Roles = [''employee'', ''admin''],
      ke_QueryVariations = [''How do I apply?'', ''Where is the form?''],
      ke_Answer = ''Open Leave and press Apply.''\<rparr>"

definition sample_ids :: "string list" where
  "sample_ids =
     [''kb-01'', ''kb-02'', ''kb-03'', ''kb-04'', ''kb-05'', ''kb-06'',
      ''kb-07'', ''kb-08'', ''kb-09'', ''kb-10'', ''kb-11'', ''kb-12'']"

definition sample_chunks :: "(string \<times> StreamDelta) list" where
  \<open>sample_chunks =
     [(''{"id":"c1","choices":[{"delta":{"content":"Hel"}}]}'',
       \<lparr>sd_ID = ''c1'', sd_Choices = [\<lparr>dc_Content = ''Hel'', dc_FinishReason = []\<rparr>]\<rparr>),
      (''{"id":"c1","choices":[{"delta":{"content":"lo"}}]}'',
       \<lparr>sd_ID = ''c1'', sd_Choices = [\<lparr>dc_Content = ''lo'', dc_FinishReason = []\<rparr>]\<rparr>),
      (''{"id":"c1","choices":[{"delta":{},"finish_reason":"stop"}]}'',
       \<lparr>sd_ID = ''c1'', sd_Choices = [\<lparr>dc_Content = [], dc_FinishReason = ''stop''\<rparr>]\<rparr>)]\<close>

definition sample_lines :: "string list" where
  \<open>sample_lines =
     [''data: {"id":"c1","choices":[{"delta":{"content":"Hel"}}]}'',
      [],
      '': keep-alive'',
      ''data: {"id":"c1","choi'',
      ''data: {"id":"c1","choices":[{"delta":{"content":"lo"}}]}'',
      ''data: {"id":"c1","choices":[{"delta":{},"finish_reason":"stop"}]}'',
      ''data: [DONE]'',
      ''data: {"id":"c1","choices":[{"delta":{"content":"Hel"}}]}'']\<close>

definition sample_env :: env where
  "sample_env =
     \<lparr>ollama = (\<lambda>tr url req.
         if or_Prompt req = ''boom'' then DoFailed
         else Response 200 (Decoded [0x3FF0000000000000])),
      qdrant_get = (\<lambda>tr url. if shows_collection tr url then Response 200 () else Response 404 ()),
      qdrant_create = (\<lambda>tr url n d. if shows_collection tr url then Response 409 () else Response 200 ()),
      qdrant_upsert = (\<lambda>tr url points. Response 200 ()),
      qdrant_search = (\<lambda>tr url vec k with_payload.
         if url = ''http://localhost:6333/collections/knowledge_base/points/search''
         then Response 200 (Decoded sample_results)
         else Response 200 (Decoded [])),
      groq = (\<lambda>tr url req.
         Response 200 (Decoded \<lparr>resp_ID = ''r1'',
           resp_Choices = [\<lparr>ch_Message = \<lparr>Role = ''assistant'', Content = ''Open Leave.''\<rparr>,
                             ch_FinishReason = ''stop''\<rparr>]\<rparr>)),
      groq_stream = (\<lambda>tr url req.
         Response 200 (sample_lines, False)),
      read_entries = (\<lambda>path.
         if path = ''kb.json'' then Decoded (map sample_entry sample_ids)
         else if path = ''bad.json'' then Malformed
         else Unreadable),
      float32_of = (\<lambda>v. if v = 0x3FF0000000000000 then 0x3F800000 else 0),
      fmt_2f = (\<lambda>x. if x = 0x3F666666 then ''0.90''
                     else if x = 0x3F4CCCCD then ''0.80''
                     else if x = 0x3F333333 then ''0.70''
                     else ''0.00''),
      fmt_v = (\<lambda>v. case v of VFloat64 x \<Rightarrow> fmt_d (unat x) | _ \<Rightarrow> ''<nil>''),
      unmarshal_StreamDelta = map_of sample_chunks\<rparr>"

text \<open>The same environment with the vector store unreachable for existence checks.\<close>

definition unreachable_env :: env where
  "unreachable_env = sample_env\<lparr>qdrant_get := (\<lambda>tr url. DoFailed)\<rparr>"


definition sample_store :: VectorClient where
  "sample_store =
     \<lparr>baseURL = ''http://localhost:6333'', collectionName = ''knowledge_base'', vectorSize = 768\<rparr>"

definition empty_store :: VectorClient where
  "empty_store =
     \<lparr>baseURL = ''http://localhost:6333'', collectionName = ''empty'', vectorSize = 768\<rparr>"

definition sample_rag :: "VectorClient \<Rightarrow> RagService" where
  "sample_rag store = NewRagService (NewLLMClient ''key'') NewEmbedder store"

definition sample_ingest :: IngestService where
  "sample_ingest = NewIngestService NewEmbedder sample_store"

section \<open>The identifier mapping is FNV-1a\<close>

lemma unat_fnv_step:
  "unat ((h XOR of_char c) * prime64) = ((unat h XOR of_char c) * 1099511628211) mod 2 ^ 64"
proof -
  have c: "unat (of_char c :: uint64) = of_char c"
  proof -
    have "(of_char c :: nat) < 256"
      by (simp add: of_char_def)
    then have "(of_char c :: nat) < 2 ^ 64"
      by (rule less_trans) simp
    moreover have "(of_char c :: uint64) = of_nat (of_char c)"
      by (simp add: of_char_def)
    ultimately show ?thesis
      by (simp add: unat_of_nat)
  qed
  have "unat (h XOR of_char c) = unat h XOR of_char c"
    by (simp add: unsigned_xor_eq c)
  then show ?thesis
    by (simp add: unat_word_ariths prime64_def)
qed

lemma unat_Write64a:
  "unat (Write64a h s) = fnv1a_64_from (unat h) (bytes_of s)"
proof (induction s arbitrary: h)
  case Nil
  show ?case by (simp add: bytes_of_def)
next
  case (Cons c s)
  have "unat (Write64a h (c # s)) = unat (Write64a ((h XOR of_char c) * prime64) s)"
    by simp
  also have "\<dots> = fnv1a_64_from (unat ((h XOR of_char c) * prime64)) (bytes_of s)"
    by (rule Cons.IH)
  also have "\<dots> = fnv1a_64_from (unat h) (bytes_of (c # s))"
    by (simp only: unat_fnv_step bytes_of_def list.map fnv1a_64_from.simps)
  finally show ?case .
qed

lemma stringToNumericID_empty: "stringToNumericID [] = 0xcbf29ce484222325"
  by (simp add: stringToNumericID_def Sum64_def New64a_def offset64_def)

lemma stringToNumericID_a: "stringToNumericID ''a'' = 0xaf63dc4c8601ec8c"
  by (simp add: stringToNumericID_def Sum64_def New64a_def offset64_def prime64_def)

lemma stringToNumericID_foobar: "stringToNumericID ''foobar'' = 0x85944171f73967e8"
  by (simp add: stringToNumericID_def Sum64_def New64a_def offset64_def prime64_def)

text \<open>
  Claim C1. \<open>stringToNumericID\<close> is a function of the string alone (it takes no other
  argument and reads no state), and for every string \<open>s\<close> its value, read as an unsigned
  number, is the FNV-1a 64-bit hash of the bytes of \<open>s\<close>; the value fits 64 bits.
\<close>

theorem stringToNumericID_is_fnv1a:
  "unat (stringToNumericID s) = fnv1a_64 (bytes_of s) \<and> unat (stringToNumericID s) < 2 ^ 64"
proof
  show "unat (stringToNumericID s) = fnv1a_64 (bytes_of s)"
    by (simp add: stringToNumericID_def Sum64_def New64a_def offset64_def fnv1a_64_def
        unat_Write64a)
  have "unat (stringToNumericID s) < 2 ^ LENGTH(64)"
    by (rule unsigned_less)
  then show "unat (stringToNumericID s) < 2 ^ 64"
    by simp
qed

section \<open>The embedder: truncation and batches\<close>

lemma truncate_take: "(if length t0 > 8000 then take 8000 t0 else t0) = take 8000 (t0 :: string)"
  by simp

lemma embedSingle_trace:
  "snd (embedSingle w e t0 tr) = tr @ [embed_event e t0 (embed_reply w e t0 tr)]"
  unfolding embedSingle_def embed_event_def embed_reply_def truncate_take Let_def
  by (simp split: http.splits body.splits)

lemma embedSingle_Inr:
  assumes "fst (embedSingle w e t0 tr) = Inr v"
  shows "\<exists>emb. embed_reply w e t0 tr = Response StatusOK (Decoded emb) \<and> emb \<noteq> []
           \<and> v = float64ToFloat32 w emb"
  using assms
  unfolding embedSingle_def embed_event_def embed_reply_def truncate_take Let_def
  by (auto split: http.splits body.splits if_splits)

lemma embedSingle_Inl:
  assumes "fst (embedSingle w e t0 tr) = Inl err"
  shows "\<not> (\<exists>emb. embed_reply w e t0 tr = Response StatusOK (Decoded emb) \<and> emb \<noteq> [])"
  using assms
  unfolding embedSingle_def embed_event_def embed_reply_def truncate_take Let_def
  by (auto split: http.splits body.splits if_splits)

lemma Embed_loop_Inr:
  assumes "Embed_loop w e i texts embs tr = (Inr out, tr')"
    and "i + length texts \<le> length embs"
  shows "length out = length embs \<and> (\<forall>j<i. out ! j = embs ! j) \<and>
         (\<exists>evs. tr' = tr @ evs \<and> length evs = length texts \<and>
            (\<forall>k<length texts. \<exists>v. evs ! k = embed_event e (texts ! k) (Response StatusOK (Decoded v))
                \<and> v \<noteq> [] \<and> out ! (i + k) = float64ToFloat32 w v))"
  using assms
proof (induction texts arbitrary: i embs tr)
  case Nil
  then show ?case by simp
next
  case (Cons t0 rest)
  obtain r tr1 where es: "embedSingle w e t0 tr = (r, tr1)" by (cases "embedSingle w e t0 tr")
  with Cons.prems(1) obtain emb where r: "r = Inr emb"
    by (cases r) auto
  from es r Cons.prems(1) have rec: "Embed_loop w e (i + 1) rest (embs[i := emb]) tr1 = (Inr out, tr')"
    by simp
  from Cons.prems(2) have len: "i + 1 + length rest \<le> length (embs[i := emb])" and ilt: "i < length embs"
    by simp_all
  from Cons.IH [OF rec len] obtain evs where
    lo: "length out = length embs" and
    keep: "\<forall>j<i + 1. out ! j = (embs[i := emb]) ! j" and
    tr': "tr' = tr1 @ evs" and levs: "length evs = length rest" and
    each: "\<forall>k<length rest. \<exists>v. evs ! k = embed_event e (rest ! k) (Response StatusOK (Decoded v))
                \<and> v \<noteq> [] \<and> out ! (i + 1 + k) = float64ToFloat32 w v"
    by auto
  from es have tr1: "tr1 = tr @ [embed_event e t0 (embed_reply w e t0 tr)]"
    using embedSingle_trace [of w e t0 tr] by simp
  from es r obtain v0 where v0: "embed_reply w e t0 tr = Response StatusOK (Decoded v0)"
      "v0 \<noteq> []" "emb = float64ToFloat32 w v0"
    using embedSingle_Inr [of w e t0 tr emb] by auto
  from keep ilt have outi: "out ! i = emb" by simp
  have keep': "\<forall>j<i. out ! j = embs ! j"
    using keep by simp
  let ?evs = "embed_event e t0 (Response StatusOK (Decoded v0)) # evs"
  have "tr' = tr @ ?evs" using tr' tr1 v0 by simp
  moreover have "length ?evs = length (t0 # rest)" using levs by simp
  moreover have "\<forall>k<length (t0 # rest). \<exists>v. ?evs ! k = embed_event e ((t0 # rest) ! k) (Response StatusOK (Decoded v))
                \<and> v \<noteq> [] \<and> out ! (i + k) = float64ToFloat32 w v"
  proof (intro allI impI)
    fix k assume k: "k < length (t0 # rest)"
    show "\<exists>v. ?evs ! k = embed_event e ((t0 # rest) ! k) (Response StatusOK (Decoded v))
                \<and> v \<noteq> [] \<and> out ! (i + k) = float64ToFloat32 w v"
    proof (cases k)
      case 0
      then show ?thesis using v0 outi by auto
    next
      case (Suc k')
      with k have "k' < length rest" by simp
      with each Suc show ?thesis by auto
    qed
  qed
  ultimately show ?case using lo keep' by blast
qed

lemma Embed_loop_Inl:
  assumes "Embed_loop w e i texts embs tr = (Inl err, tr')"
  shows "\<exists>k<length texts. \<exists>cause evs. err = WrappedAt ''embed text'' (i + k) cause \<and>
            tr' = tr @ evs \<and> length evs = k + 1 \<and>
            fst (embedSingle w e (texts ! k) (tr @ butlast evs)) = Inl cause"
  using assms
proof (induction texts arbitrary: i embs tr)
  case Nil
  then show ?case by simp
next
  case (Cons t0 rest)
  obtain r tr1 where es: "embedSingle w e t0 tr = (r, tr1)" by (cases "embedSingle w e t0 tr")
  from es have tr1: "tr1 = tr @ [embed_event e t0 (embed_reply w e t0 tr)]"
    using embedSingle_trace [of w e t0 tr] by simp
  show ?case
  proof (cases r)
    case (Inl cause)
    with es Cons.prems have "err = WrappedAt ''embed text'' i cause" "tr' = tr1" by simp_all
    with tr1 es Inl have "err = WrappedAt ''embed text'' (i + 0) cause \<and>
            tr' = tr @ [embed_event e t0 (embed_reply w e t0 tr)] \<and>
            length [embed_event e t0 (embed_reply w e t0 tr)] = 0 + 1 \<and>
            fst (embedSingle w e ((t0 # rest) ! 0) (tr @ butlast [embed_event e t0 (embed_reply w e t0 tr)])) = Inl cause"
      by simp
    then show ?thesis by (intro exI [of _ 0]) blast
  next
    case (Inr emb)
    with es Cons.prems have rec: "Embed_loop w e (i + 1) rest (embs[i := emb]) tr1 = (Inl err, tr')"
      by simp
    from Cons.IH [OF rec] obtain k cause evs where k: "k < length rest"
      and e: "err = WrappedAt ''embed text'' (i + 1 + k) cause"
      and t: "tr' = tr1 @ evs" and l: "length evs = k + 1"
      and f: "fst (embedSingle w e (rest ! k) (tr1 @ butlast evs)) = Inl cause"
      by blast
    let ?evs = "embed_event e t0 (embed_reply w e t0 tr) # evs"
    from l have ne: "evs \<noteq> []" by auto
    have "Suc k < length (t0 # rest)" using k by simp
    moreover have "err = WrappedAt ''embed text'' (i + Suc k) cause" using e by simp
    moreover have "tr' = tr @ ?evs" using t tr1 by simp
    moreover have "length ?evs = Suc k + 1" using l by simp
    moreover have "fst (embedSingle w e ((t0 # rest) ! Suc k) (tr @ butlast ?evs)) = Inl cause"
      using f tr1 ne by simp
    ultimately show ?thesis by blast
  qed
qed



lemma prompts_sent_append: "prompts_sent (tr @ tr') = prompts_sent tr @ prompts_sent tr'"
  by (induction tr rule: prompts_sent.induct) simp_all




text \<open>
  Claim C5. When \<open>Embed\<close> succeeds it returns exactly one vector per text; it has made
  one exchange per text, in the order of the texts, each carrying that text (cut to
  8000 bytes) and each answered with status 200 and a non-empty embedding, and the
  vector at position \<open>i\<close> is the converted embedding of exchange \<open>i\<close>. When it fails
  it returns only an error: the error of the first item whose own call failed, wrapped
  with that item's index; the items before it were sent, the items after it were not.
\<close>

theorem Embed_contract:
  "case Embed w e texts tr of
     (Inr embeddings, tr') \<Rightarrow>
        length embeddings = length texts \<and>
        (\<exists>evs. tr' = tr @ evs \<and> length evs = length texts \<and>
           (\<forall>i<length texts. \<exists>v. evs ! i = embed_event e (texts ! i) (Response StatusOK (Decoded v))
               \<and> v \<noteq> [] \<and> embeddings ! i = float64ToFloat32 w v))
   | (Inl err, tr') \<Rightarrow>
        (\<exists>i<length texts. \<exists>cause evs. err = WrappedAt ''embed text'' i cause \<and>
            tr' = tr @ evs \<and> length evs = i + 1 \<and>
            fst (embedSingle w e (texts ! i) (tr @ butlast evs)) = Inl cause)"
proof (cases "Embed w e texts tr")
  case (Pair r tr')
  show ?thesis
  proof (cases r)
    case (Inl err)
    with Pair have "Embed_loop w e 0 texts (replicate (length texts) []) tr = (Inl err, tr')"
      by (simp add: Embed_def)
    from Embed_loop_Inl [OF this] show ?thesis using Pair Inl by simp
  next
    case (Inr out)
    with Pair have "Embed_loop w e 0 texts (replicate (length texts) []) tr = (Inr out, tr')"
      by (simp add: Embed_def)
    from Embed_loop_Inr [OF this] show ?thesis using Pair Inr by simp
  qed
qed

theorem Embed_contract_witness:
  "Embed sample_env NewEmbedder [''alpha'', ''beta''] [] =
     (Inr [[0x3F800000], [0x3F800000]],
      [embed_event NewEmbedder ''alpha'' (Response 200 (Decoded [0x3FF0000000000000])),
       embed_event NewEmbedder ''beta'' (Response 200 (Decoded [0x3FF0000000000000]))]) \<and>
   Embed sample_env NewEmbedder [''alpha'', ''boom'', ''beta''] [] =
     (Inl (WrappedAt ''embed text'' 1 (Wrapped ''do request'' TransportError)),
      [embed_event NewEmbedder ''alpha'' (Response 200 (Decoded [0x3FF0000000000000])),
       embed_event NewEmbedder ''boom'' DoFailed])"
  using Embed_contract [where w = sample_env and e = NewEmbedder and texts = "[''alpha'', ''beta'']" and tr = "[]"]
    Embed_contract [where w = sample_env and e = NewEmbedder and texts = "[''alpha'', ''boom'', ''beta'']" and tr = "[]"]
  by (simp add: Embed_def embedSingle_def sample_env_def NewEmbedder_def embed_event_def
      float64ToFloat32_def StatusOK_def)

section \<open>The query pipeline: context block and sources\<close>

lemma sources_loop_fill:
  "i + length rs \<le> length out \<Longrightarrow>
   sources_loop i rs out = take i out @ map source_of rs @ drop (i + length rs) out"
proof (induction rs arbitrary: i out)
  case Nil
  then show ?case by simp
next
  case (Cons r rs)
  let ?out = "out[i := source_of r]"
  from Cons.prems have i: "i < length out" and le: "(i + 1) + length rs \<le> length ?out"
    by simp_all
  have "sources_loop i (r # rs) out = sources_loop (i + 1) rs ?out"
    by (simp add: source_of_def Let_def)
  also have "\<dots> = take (i + 1) ?out @ map source_of rs @ drop (i + 1 + length rs) ?out"
    by (rule Cons.IH [OF le])
  also have "take (i + 1) ?out = take i out @ [source_of r]"
    using i by (simp add: take_Suc_conv_app_nth)
  also have "drop (i + 1 + length rs) ?out = drop (i + 1 + length rs) out"
    by simp
  finally show ?case by simp
qed

lemma sources_loop_map:
  "sources_loop 0 rs (replicate (length rs) z) = map source_of rs"
  by (simp add: sources_loop_fill)

lemma Search_loop_fill:
  "i + length rs \<le> length out \<Longrightarrow>
   Search_loop w i rs out = take i out @ map (result_of w) rs @ drop (i + length rs) out"
proof (induction rs arbitrary: i out)
  case Nil
  then show ?case by simp
next
  case (Cons r rs)
  let ?out = "out[i := result_of w r]"
  from Cons.prems have i: "i < length out" and le: "(i + 1) + length rs \<le> length ?out"
    by simp_all
  have "Search_loop w i (r # rs) out = Search_loop w (i + 1) rs ?out"
    by (simp add: result_of_def Let_def)
  also have "\<dots> = take (i + 1) ?out @ map (result_of w) rs @ drop (i + 1 + length rs) ?out"
    by (rule Cons.IH [OF le])
  also have "take (i + 1) ?out = take i out @ [result_of w r]"
    using i by (simp add: take_Suc_conv_app_nth)
  also have "drop (i + 1 + length rs) ?out = drop (i + 1 + length rs) out"
    by simp
  finally show ?case by simp
qed

lemma Search_loop_map:
  "Search_loop w 0 rs (replicate (length rs) z) = map (result_of w) rs"
  by (simp add: Search_loop_fill)

lemma buildContext_loop_sections:
  "buildContext_loop w i rs sb =
     sb @ concat (map (context_section w)
                    (filter (\<lambda>ir. has_text (snd ir)) (zip [Suc i..<Suc i + length rs] rs)))"
proof (induction rs arbitrary: i sb)
  case Nil
  show ?case by simp
next
  case (Cons r rs)
  have range: "[Suc i..<Suc i + length (r # rs)] = Suc i # [Suc (Suc i)..<Suc (Suc i) + length rs]"
    by (simp add: upt_rec)
  show ?case
  proof (cases "assert_string (sr_Payload r) ''text''")
    case None
    then show ?thesis
      unfolding range by (simp add: Cons.IH has_text_def)
  next
    case (Some t)
    then show ?thesis
      unfolding range
      by (simp add: Cons.IH has_text_def context_section_def string_or_zero_def Let_def)
  qed
qed

lemma buildContext_sections:
  "buildContext w results =
     concat (map (context_section w) (filter (\<lambda>ir. has_text (snd ir)) (ranked results)))"
  by (simp add: buildContext_def buildContext_loop_sections ranked_def)

lemma CreateChatCompletion_trace:
  "snd (CreateChatCompletion w c ms n tr) =
     tr @ [ChatCompletion groqAPIURL (chat_request c ms n False)
             (groq w tr groqAPIURL (chat_request c ms n False))]"
  unfolding CreateChatCompletion_def chat_request_def Let_def
  by (simp split: http.splits body.splits)

lemma Search_Inr:
  assumes "Search w c vec k tr = (Inr results, tr')"
  shows "\<exists>raw. qdrant_search w tr (search_url c) vec k True = Response StatusOK (Decoded raw)
           \<and> results = map (result_of w) raw"
  using assms unfolding Search_def search_url_def Let_def
  by (auto simp: Search_loop_map split: http.splits body.splits if_splits)

lemma Search_reply:
  assumes "qdrant_search w tr (search_url c) vec k True = Response StatusOK (Decoded raw)"
  shows "fst (Search w c vec k tr) = Inr (map (result_of w) raw)"
  using assms unfolding Search_def search_url_def Let_def
  by (simp add: Search_loop_map)

lemma Query_after_search:
  assumes "EmbedSingle w (rag_embedder s) q tr = (Inr emb, tr1)"
    and "Search w (rag_vectorClient s) emb (topK s) tr1 = (Inr results, tr2)"
  shows "Query w s q tr =
     (case CreateChatCompletion w (rag_llmClient s) (build_messages (buildContext w results) q) 1024 tr2 of
        (Inl err, tr3) \<Rightarrow> (Inl (Wrapped ''llm completion'' err), tr3)
      | (Inr resp, tr3) \<Rightarrow>
          if resp_Choices resp = [] then (Inl NoResponseFromLLM, tr3)
          else (Inr \<lparr>Answer = Content (ch_Message (hd (resp_Choices resp))),
                     Sources = map source_of results\<rparr>, tr3))"
  using assms
  by (simp add: Query_def Let_def sources_loop_map hd_conv_nth split: prod.splits sum.splits)

lemma Query_result:
  assumes "EmbedSingle w (rag_embedder s) q tr = (Inr emb, tr1)"
    and "Search w (rag_vectorClient s) emb (topK s) tr1 = (Inr results, tr2)"
  shows "fst (Query w s q tr) =
     (case fst (CreateChatCompletion w (rag_llmClient s)
                  (build_messages (buildContext w results) q) 1024 tr2) of
        Inl err \<Rightarrow> Inl (Wrapped ''llm completion'' err)
      | Inr resp \<Rightarrow>
          if resp_Choices resp = [] then Inl NoResponseFromLLM
          else Inr \<lparr>Answer = Content (ch_Message (hd (resp_Choices resp))),
                    Sources = map source_of results\<rparr>)"
  unfolding Query_after_search [OF assms]
  by (simp split: prod.splits sum.splits)

lemma Query_trace:
  assumes "EmbedSingle w (rag_embedder s) q tr = (Inr emb, tr1)"
    and "Search w (rag_vectorClient s) emb (topK s) tr1 = (Inr results, tr2)"
  shows "snd (Query w s q tr) =
     tr2 @ [ChatCompletion groqAPIURL
              (chat_request (rag_llmClient s) (build_messages (buildContext w results) q) 1024 False)
              (groq w tr2 groqAPIURL
                 (chat_request (rag_llmClient s) (build_messages (buildContext w results) q) 1024 False))]"
proof -
  let ?c = "CreateChatCompletion w (rag_llmClient s) (build_messages (buildContext w results) q) 1024 tr2"
  have "snd (Query w s q tr) = snd ?c"
    unfolding Query_after_search [OF assms]
    by (simp split: prod.splits sum.splits)
  then show ?thesis
    by (simp add: CreateChatCompletion_trace)
qed

lemma Query_Sources:
  assumes "EmbedSingle w (rag_embedder s) q tr = (Inr emb, tr1)"
    and "Search w (rag_vectorClient s) emb (topK s) tr1 = (Inr results, tr2)"
    and "fst (Query w s q tr) = Inr qr"
  shows "Sources qr = map source_of results"
  using assms(3) unfolding Query_after_search [OF assms(1,2)]
  by (auto split: prod.splits sum.splits if_splits)

lemma CreateChatCompletion_reply:
  assumes "groq w tr groqAPIURL (chat_request c ms n False) = Response StatusOK (Decoded resp)"
  shows "fst (CreateChatCompletion w c ms n tr) = Inr resp"
  using assms unfolding CreateChatCompletion_def chat_request_def Let_def
  by simp

subsection \<open>The sample environment, evaluated\<close>

lemma sample_env_simps:
  "ollama sample_env tr url req =
     (if or_Prompt req = ''boom'' then DoFailed else Response 200 (Decoded [0x3FF0000000000000]))"
  "qdrant_get sample_env tr url = (if shows_collection tr url then Response 200 () else Response 404 ())"
  "qdrant_create sample_env tr url n d =
     (if shows_collection tr url then Response 409 () else Response 200 ())"
  "qdrant_upsert sample_env tr url points = Response 200 ()"
  "qdrant_search sample_env tr url vec k with_payload =
     (if url = ''http://localhost:6333/collections/knowledge_base/points/search''
      then Response 200 (Decoded sample_results) else Response 200 (Decoded []))"
  "groq sample_env tr url creq =
     Response 200 (Decoded \<lparr>resp_ID = ''r1'',
       resp_Choices = [\<lparr>ch_Message = \<lparr>Role = ''assistant'', Content = ''Open Leave.''\<rparr>,
                         ch_FinishReason = ''stop''\<rparr>]\<rparr>)"
  "groq_stream sample_env tr url creq =
     Response 200 (sample_lines, False)"
  "read_entries sample_env path =
     (if path = ''kb.json'' then Decoded (map sample_entry sample_ids)
      else if path = ''bad.json'' then Malformed else Unreadable)"
  "float32_of sample_env v = (if v = 0x3FF0000000000000 then 0x3F800000 else 0)"
  "fmt_2f sample_env x =
     (if x = 0x3F666666 then ''0.90'' else if x = 0x3F4CCCCD then ''0.80''
      else if x = 0x3F333333 then ''0.70'' else ''0.00'')"
  "fmt_v sample_env a = (case a of VFloat64 x \<Rightarrow> fmt_d (unat x) | _ \<Rightarrow> ''<nil>'')"
  "unmarshal_StreamDelta sample_env = map_of sample_chunks"
  by (simp_all add: sample_env_def)

lemma sample_EmbedSingle:
  "EmbedSingle sample_env NewEmbedder q [] =
     (if take 8000 q = ''boom'' then Inl (Wrapped ''do request'' TransportError) else Inr [0x3F800000],
      [embed_event NewEmbedder q (if take 8000 q = ''boom'' then DoFailed
                                  else Response 200 (Decoded [0x3FF0000000000000]))])"
  by (simp add: EmbedSingle_def embedSingle_def truncate_take sample_env_simps embed_event_def
      float64ToFloat32_def StatusOK_def Let_def)

lemma fmt_d_values:
  "fmt_d 0 = ''0''" "fmt_d 1 = ''1''" "fmt_d 2 = ''2''" "fmt_d 3 = ''3''" "fmt_d 4 = ''4''"
  "fmt_d 5 = ''5''" "fmt_d 6 = ''6''" "fmt_d 7 = ''7''" "fmt_d 8 = ''8''" "fmt_d 9 = ''9''"
  "fmt_d 10 = ''10''" "fmt_d 11 = ''11''" "fmt_d 12 = ''12''" "fmt_d 13 = ''13''"
  by code_simp+

lemma fmt_d_Suc:
  "fmt_d (Suc 0) = ''1''" "fmt_d (Suc (Suc 0)) = ''2''" "fmt_d (Suc (Suc (Suc 0))) = ''3''"
  using fmt_d_values(2,3,4) by (simp_all add: numeral_2_eq_2 numeral_3_eq_3)

subsection \<open>The claims about the query pipeline\<close>

text \<open>
  Claim C2. For every list of search results, the context block is the concatenation,
  in rank order, of one section per result that has a string under \<open>"text"\<close>: the
  header \<open>--- Document i (score: s.ss) ---\<close> with \<open>i\<close> the rank of the result in the whole
  list (counted from 1), then the stored text. Results without a stored text contribute
  nothing. When the embedding and the search of a query have succeeded, the generator
  is called with that context block, and a \<open>QueryResult\<close> that is returned has exactly
  one source per search result, in rank order, whether or not the result had a text.
\<close>

theorem context_block_and_sources:
  "buildContext w results =
     concat (map (context_section w) (filter (\<lambda>ir. has_text (snd ir)) (ranked results))) \<and>
   (EmbedSingle w (rag_embedder s) q tr = (Inr emb, tr1) \<longrightarrow>
    Search w (rag_vectorClient s) emb (topK s) tr1 = (Inr results, tr2) \<longrightarrow>
      snd (Query w s q tr) =
        tr2 @ [ChatCompletion groqAPIURL
                 (chat_request (rag_llmClient s) (build_messages (buildContext w results) q) 1024 False)
                 (groq w tr2 groqAPIURL
                    (chat_request (rag_llmClient s) (build_messages (buildContext w results) q) 1024 False))] \<and>
      (\<forall>qr. fst (Query w s q tr) = Inr qr \<longrightarrow>
         Sources qr = map source_of results \<and> length (Sources qr) = length results))"
proof (intro conjI impI allI)
  show "buildContext w results =
     concat (map (context_section w) (filter (\<lambda>ir. has_text (snd ir)) (ranked results)))"
    by (rule buildContext_sections)
next
  assume a: "EmbedSingle w (rag_embedder s) q tr = (Inr emb, tr1)"
    and b: "Search w (rag_vectorClient s) emb (topK s) tr1 = (Inr results, tr2)"
  show "snd (Query w s q tr) =
        tr2 @ [ChatCompletion groqAPIURL
                 (chat_request (rag_llmClient s) (build_messages (buildContext w results) q) 1024 False)
                 (groq w tr2 groqAPIURL
                    (chat_request (rag_llmClient s) (build_messages (buildContext w results) q) 1024 False))]"
    by (rule Query_trace [OF a b])
  fix qr assume c: "fst (Query w s q tr) = Inr qr"
  show "Sources qr = map source_of results"
    by (rule Query_Sources [OF a b c])
  then show "length (Sources qr) = length results"
    by simp
qed

theorem context_block_and_sources_witness:
  "buildContext sample_env (map (result_of sample_env) sample_results) =
     ''--- Document 1 (score: 0.90) ---\<newline>Apply for leave\<newline>\<newline>'' @
     ''--- Document 3 (score: 0.70) ---\<newline>Open the payslip\<newline>\<newline>'' \<and>
   fst (Query sample_env (sample_rag sample_store) ''leave'' []) =
     Inr \<lparr>Answer = ''Open Leave.'',
          Sources =
            [\<lparr>src_ID = ''kb-1'', src_Module = ''Leave'', src_Topic = ''Requests'', src_Score = 0x3F666666\<rparr>,
             \<lparr>src_ID = [], src_Module = ''Payroll'', src_Topic = [], src_Score = 0x3F4CCCCD\<rparr>,
             \<lparr>src_ID = ''kb-3'', src_Module = ''Payroll'', src_Topic = ''Payslips'', src_Score = 0x3F333333\<rparr>]\<rparr>"
proof -
  let ?tr1 = "[embed_event NewEmbedder ''leave'' (Response 200 (Decoded [0x3FF0000000000000]))]"
  let ?results = "map (result_of sample_env) sample_results"
  let ?tr2 = "[embed_event NewEmbedder ''leave'' (Response 200 (Decoded [0x3FF0000000000000])),
              PointsSearch (search_url sample_store) [0x3F800000] 5 True
                (Response 200 (Decoded sample_results))]"
  have a: "EmbedSingle sample_env (rag_embedder (sample_rag sample_store)) ''leave'' [] =
             (Inr [0x3F800000], ?tr1)"
    by (simp add: sample_EmbedSingle sample_rag_def NewRagService_def)
  have b: "Search sample_env (rag_vectorClient (sample_rag sample_store)) [0x3F800000]
             (topK (sample_rag sample_store)) ?tr1 = (Inr ?results, ?tr2)"
    by (simp add: Search_def Search_loop_map search_url_def sample_rag_def NewRagService_def
        sample_store_def sample_env_simps StatusOK_def Let_def)
  have c: "buildContext sample_env ?results =
     ''--- Document 1 (score: 0.90) ---\<newline>Apply for leave\<newline>\<newline>'' @
     ''--- Document 3 (score: 0.70) ---\<newline>Open the payslip\<newline>\<newline>''"
    by (simp add: buildContext_def sample_results_def result_of_def assert_string_def
        fmt_d_Suc sample_env_simps)
  have d: "groq sample_env ?tr2 groqAPIURL
             (chat_request (rag_llmClient (sample_rag sample_store))
                (build_messages (buildContext sample_env ?results) ''leave'') 1024 False) =
           Response StatusOK (Decoded \<lparr>resp_ID = ''r1'',
             resp_Choices = [\<lparr>ch_Message = \<lparr>Role = ''assistant'', Content = ''Open Leave.''\<rparr>,
                               ch_FinishReason = ''stop''\<rparr>]\<rparr>)"
    by (simp add: sample_env_simps StatusOK_def)
  have e: "fst (Query sample_env (sample_rag sample_store) ''leave'' []) =
     Inr \<lparr>Answer = ''Open Leave.'', Sources = map source_of ?results\<rparr>"
    by (simp add: Query_result [OF a b] CreateChatCompletion_reply [OF d])
  have f: "map source_of ?results =
            [\<lparr>src_ID = ''kb-1'', src_Module = ''Leave'', src_Topic = ''Requests'', src_Score = 0x3F666666\<rparr>,
             \<lparr>src_ID = [], src_Module = ''Payroll'', src_Topic = [], src_Score = 0x3F4CCCCD\<rparr>,
             \<lparr>src_ID = ''kb-3'', src_Module = ''Payroll'', src_Topic = ''Payslips'', src_Score = 0x3F333333\<rparr>]"
    by (simp add: sample_results_def result_of_def source_of_def string_or_zero_def assert_string_def)
  from context_block_and_sources [where w = sample_env and results = ?results
      and s = "sample_rag sample_store" and q = "''leave''" and tr = "[]" and emb = "[0x3F800000]"
      and ?tr1.0 = ?tr1 and ?tr2.0 = ?tr2] a b c e f
  show ?thesis by simp
qed

text \<open>
  Claim C9. When a query returns a result, its sources list has one entry per element
  of the store's answer, and the \<open>ID\<close>, \<open>Module\<close> and \<open>Topic\<close> of an entry are the strings
  the payload holds under \<open>"id"\<close>, \<open>"module"\<close> and \<open>"topic"\<close>, and the empty string where the
  payload holds no string there. In particular, where the payload has no string
  \<open>"id"\<close>, the search result's identifier is the raw point id printed by \<open>Search\<close>, and
  the source's \<open>ID\<close> is empty all the same.
\<close>

theorem sources_read_only_the_payload:
  assumes "EmbedSingle w (rag_embedder s) q tr = (Inr emb, tr1)"
    and "qdrant_search w tr1 (search_url (rag_vectorClient s)) emb (topK s) True =
           Response StatusOK (Decoded raw)"
    and "fst (Query w s q tr) = Inr qr"
  shows "fst (Search w (rag_vectorClient s) emb (topK s) tr1) = Inr (map (result_of w) raw) \<and>
         length (Sources qr) = length raw \<and>
         (\<forall>i<length raw.
            src_ID (Sources qr ! i) = string_or_zero (rr_Payload (raw ! i)) ''id'' \<and>
            src_Module (Sources qr ! i) = string_or_zero (rr_Payload (raw ! i)) ''module'' \<and>
            src_Topic (Sources qr ! i) = string_or_zero (rr_Payload (raw ! i)) ''topic'' \<and>
            (assert_string (rr_Payload (raw ! i)) ''id'' = None \<longrightarrow>
               src_ID (Sources qr ! i) = [] \<and>
               sr_ID (result_of w (raw ! i)) = fmt_v w (rr_ID (raw ! i))) \<and>
            (assert_string (rr_Payload (raw ! i)) ''module'' = None \<longrightarrow>
               src_Module (Sources qr ! i) = []) \<and>
            (assert_string (rr_Payload (raw ! i)) ''topic'' = None \<longrightarrow>
               src_Topic (Sources qr ! i) = []))"
proof -
  let ?results = "map (result_of w) raw"
  have s1: "fst (Search w (rag_vectorClient s) emb (topK s) tr1) = Inr ?results"
    by (rule Search_reply [OF assms(2)])
  then obtain tr2 where s2: "Search w (rag_vectorClient s) emb (topK s) tr1 = (Inr ?results, tr2)"
    by (cases "Search w (rag_vectorClient s) emb (topK s) tr1") simp
  have src: "Sources qr = map source_of ?results"
    by (rule Query_Sources [OF assms(1) s2 assms(3)])
  have each: "\<And>i. i < length raw \<Longrightarrow> Sources qr ! i = source_of (result_of w (raw ! i))"
    by (simp add: src)
  show ?thesis
    using s1 src
    by (auto simp: each source_of_def result_of_def string_or_zero_def)
qed

theorem sources_read_only_the_payload_witness:
  "qdrant_search sample_env [embed_event NewEmbedder ''leave'' (Response 200 (Decoded [0x3FF0000000000000]))]
      (search_url (rag_vectorClient (sample_rag sample_store))) [0x3F800000]
      (topK (sample_rag sample_store)) True = Response StatusOK (Decoded sample_results) \<and>
   assert_string (rr_Payload (sample_results ! 1)) ''id'' = None \<and>
   assert_string (rr_Payload (sample_results ! 1)) ''topic'' = None \<and>
   sr_ID (result_of sample_env (sample_results ! 1)) = ''2'' \<and>
   map src_ID (Sources (projr (fst (Query sample_env (sample_rag sample_store) ''leave'' []))))
     = [''kb-1'', [], ''kb-3''] \<and>
   map src_Topic (Sources (projr (fst (Query sample_env (sample_rag sample_store) ''leave'' []))))
     = [''Requests'', [], ''Payslips'']"
proof -
  let ?tr1 = "[embed_event NewEmbedder ''leave'' (Response 200 (Decoded [0x3FF0000000000000]))]"
  let ?s = "sample_rag sample_store"
  have a: "EmbedSingle sample_env (rag_embedder ?s) ''leave'' [] = (Inr [0x3F800000], ?tr1)"
    by (simp add: sample_EmbedSingle sample_rag_def NewRagService_def)
  have b: "qdrant_search sample_env ?tr1 (search_url (rag_vectorClient ?s)) [0x3F800000]
             (topK ?s) True = Response StatusOK (Decoded sample_results)"
    by (simp add: sample_env_simps search_url_def sample_rag_def NewRagService_def
        sample_store_def StatusOK_def)
  obtain tr2 where c: "Search sample_env (rag_vectorClient ?s) [0x3F800000] (topK ?s) ?tr1 =
      (Inr (map (result_of sample_env) sample_results), tr2)"
    using Search_reply [OF b]
    by (cases "Search sample_env (rag_vectorClient ?s) [0x3F800000] (topK ?s) ?tr1") simp
  have d: "fst (CreateChatCompletion sample_env (rag_llmClient ?s)
             (build_messages (buildContext sample_env (map (result_of sample_env) sample_results))
                ''leave'') 1024 tr2) =
           Inr \<lparr>resp_ID = ''r1'',
             resp_Choices = [\<lparr>ch_Message = \<lparr>Role = ''assistant'', Content = ''Open Leave.''\<rparr>,
                               ch_FinishReason = ''stop''\<rparr>]\<rparr>"
    by (rule CreateChatCompletion_reply) (simp add: sample_env_simps StatusOK_def)
  have e: "fst (Query sample_env ?s ''leave'' []) =
     Inr \<lparr>Answer = ''Open Leave.'',
          Sources = map source_of (map (result_of sample_env) sample_results)\<rparr>"
    by (simp add: Query_result [OF a c] d)
  have f: "sr_ID (result_of sample_env (sample_results ! 1)) = ''2''"
    by (simp add: sample_results_def result_of_def assert_string_def sample_env_simps fmt_d_values)
  from sources_read_only_the_payload [OF a b e] b e f
  show ?thesis
    by (simp add: sample_results_def result_of_def source_of_def string_or_zero_def
        assert_string_def)
qed

text \<open>
  Claim C10. When the embedding succeeds and the search returns no result, the context
  block is empty, the generator is called all the same, with the system instruction
  and the user message built from the empty context and the query, and whenever the
  generator answers with at least one choice the query returns its first choice's text
  with an empty sources list.
\<close>

theorem query_with_no_results:
  assumes "EmbedSingle w (rag_embedder s) q tr = (Inr emb, tr1)"
    and "Search w (rag_vectorClient s) emb (topK s) tr1 = (Inr [], tr2)"
  shows "buildContext w [] = [] \<and>
         snd (Query w s q tr) =
           tr2 @ [ChatCompletion groqAPIURL
                    \<lparr>cr_Model = llm_model (rag_llmClient s),
                     cr_Messages =
                       [\<lparr>Role = ''system'', Content = systemPrompt\<rparr>,
                        \<lparr>Role = ''user'',
                         Content = ''Context from SyntraFlow Knowledge Base:\<newline>'' @ [] @
                                   ''\<newline>\<newline>User Question: '' @ q\<rparr>],
                     cr_MaxTokens = 1024, cr_Temperature = temperature_0_7, cr_Stream = False\<rparr>
                    (groq w tr2 groqAPIURL
                       (chat_request (rag_llmClient s) (build_messages [] q) 1024 False))] \<and>
         (\<forall>resp. groq w tr2 groqAPIURL (chat_request (rag_llmClient s) (build_messages [] q) 1024 False)
                    = Response StatusOK (Decoded resp) \<longrightarrow>
                 resp_Choices resp \<noteq> [] \<longrightarrow>
                 fst (Query w s q tr) =
                   Inr \<lparr>Answer = Content (ch_Message (hd (resp_Choices resp))), Sources = []\<rparr>) \<and>
         (\<forall>qr. fst (Query w s q tr) = Inr qr \<longrightarrow> Sources qr = [])"
proof -
  have ctx: "buildContext w [] = []"
    by (simp add: buildContext_def)
  have tr: "snd (Query w s q tr) =
     tr2 @ [ChatCompletion groqAPIURL (chat_request (rag_llmClient s) (build_messages [] q) 1024 False)
              (groq w tr2 groqAPIURL (chat_request (rag_llmClient s) (build_messages [] q) 1024 False))]"
    using Query_trace [OF assms] by (simp add: ctx)
  have res: "\<And>resp. groq w tr2 groqAPIURL (chat_request (rag_llmClient s) (build_messages [] q) 1024 False)
                    = Response StatusOK (Decoded resp) \<Longrightarrow> resp_Choices resp \<noteq> [] \<Longrightarrow>
                 fst (Query w s q tr) =
                   Inr \<lparr>Answer = Content (ch_Message (hd (resp_Choices resp))), Sources = []\<rparr>"
    by (simp add: Query_result [OF assms] ctx CreateChatCompletion_reply)
  have src: "\<And>qr. fst (Query w s q tr) = Inr qr \<Longrightarrow> Sources qr = []"
    using Query_Sources [OF assms] by simp
  show ?thesis
    using ctx tr res src
    by (simp add: chat_request_def build_messages_def)
qed

theorem query_with_no_results_witness:
  "Search sample_env (rag_vectorClient (sample_rag empty_store)) [0x3F800000]
      (topK (sample_rag empty_store))
      [embed_event NewEmbedder ''payslip'' (Response 200 (Decoded [0x3FF0000000000000]))] =
     (Inr [],
      [embed_event NewEmbedder ''payslip'' (Response 200 (Decoded [0x3FF0000000000000])),
       PointsSearch (search_url empty_store) [0x3F800000] 5 True (Response 200 (Decoded []))]) \<and>
   fst (Query sample_env (sample_rag empty_store) ''payslip'' []) =
     Inr \<lparr>Answer = ''Open Leave.'', Sources = []\<rparr> \<and>
   length (snd (Query sample_env (sample_rag empty_store) ''payslip'' [])) = 3"
proof -
  let ?tr1 = "[embed_event NewEmbedder ''payslip'' (Response 200 (Decoded [0x3FF0000000000000]))]"
  let ?tr2 = "[embed_event NewEmbedder ''payslip'' (Response 200 (Decoded [0x3FF0000000000000])),
       PointsSearch (search_url empty_store) [0x3F800000] 5 True (Response 200 (Decoded []))]"
  let ?s = "sample_rag empty_store"
  have a: "EmbedSingle sample_env (rag_embedder ?s) ''payslip'' [] = (Inr [0x3F800000], ?tr1)"
    by (simp add: sample_EmbedSingle sample_rag_def NewRagService_def)
  have b: "Search sample_env (rag_vectorClient ?s) [0x3F800000] (topK ?s) ?tr1 = (Inr [], ?tr2)"
    by (simp add: Search_def search_url_def sample_rag_def NewRagService_def
        empty_store_def sample_env_simps StatusOK_def Let_def)
  have c: "groq sample_env ?tr2 groqAPIURL
             (chat_request (rag_llmClient ?s) (build_messages [] ''payslip'') 1024 False) =
           Response StatusOK (Decoded \<lparr>resp_ID = ''r1'',
             resp_Choices = [\<lparr>ch_Message = \<lparr>Role = ''assistant'', Content = ''Open Leave.''\<rparr>,
                               ch_FinishReason = ''stop''\<rparr>]\<rparr>)"
    by (simp add: sample_env_simps StatusOK_def)
  from query_with_no_results [OF a b] b c
  show ?thesis by simp
qed

section \<open>Streaming generation\<close>

lemma HasPrefix_take: "HasPrefix s p = (take (length p) s = p)"
proof
  assume "HasPrefix s p"
  then show "take (length p) s = p" by (simp add: HasPrefix_def)
next
  assume t: "take (length p) s = p"
  then have "length (take (length p) s) = length p" by simp
  then have "length p \<le> length s" by simp
  with t show "HasPrefix s p" by (simp add: HasPrefix_def)
qed

lemma len_data: "length ''data: '' = 6"
  by simp

lemma HasPrefix_data: "HasPrefix l ''data: '' = (take 6 l = ''data: '')"
  unfolding HasPrefix_take len_data ..

lemma TrimPrefix_data: "take 6 l = ''data: '' \<Longrightarrow> TrimPrefix l ''data: '' = drop 6 l"
  unfolding TrimPrefix_def HasPrefix_data len_data by simp

lemma write_choices_prefix:
  "\<exists>ys zs. snd (write_choices wr cs out) = out @ ys \<and>
            filter (\<lambda>f. f \<noteq> []) (map dc_Content cs) = ys @ zs \<and>
            (fst (write_choices wr cs out) = None \<longrightarrow> zs = []) \<and>
            (fst (write_choices wr cs out) \<noteq> None \<longrightarrow>
               fst (write_choices wr cs out) = Some (Wrapped ''write stream'' WriteError))"
proof (induction cs arbitrary: out)
  case Nil
  show ?case by simp
next
  case (Cons c cs)
  show ?case
  proof (cases "dc_Content c \<noteq> [] \<and> wr out (dc_Content c)")
    case True
    from Cons.IH [of "out @ [dc_Content c]"] obtain ys where
      "\<exists>zs. snd (write_choices wr cs (out @ [dc_Content c])) = (out @ [dc_Content c]) @ ys \<and>
            filter (\<lambda>f. f \<noteq> []) (map dc_Content cs) = ys @ zs \<and>
            (fst (write_choices wr cs (out @ [dc_Content c])) = None \<longrightarrow> zs = []) \<and>
            (fst (write_choices wr cs (out @ [dc_Content c])) \<noteq> None \<longrightarrow>
               fst (write_choices wr cs (out @ [dc_Content c])) =
                 Some (Wrapped ''write stream'' WriteError))" ..
    then obtain zs where h:
      "snd (write_choices wr cs (out @ [dc_Content c])) = (out @ [dc_Content c]) @ ys \<and>
       filter (\<lambda>f. f \<noteq> []) (map dc_Content cs) = ys @ zs \<and>
       (fst (write_choices wr cs (out @ [dc_Content c])) = None \<longrightarrow> zs = []) \<and>
       (fst (write_choices wr cs (out @ [dc_Content c])) \<noteq> None \<longrightarrow>
          fst (write_choices wr cs (out @ [dc_Content c])) =
            Some (Wrapped ''write stream'' WriteError))" ..
    from h True show ?thesis
      apply (rule_tac x = "dc_Content c # ys" in exI)
      apply (rule_tac x = zs in exI)
      apply simp
      done
  next
    case False
    show ?thesis
    proof (cases "dc_Content c = []")
      case True
      with Cons.IH [of out] show ?thesis by simp
    next
      case ne: False
      with False have "\<not> wr out (dc_Content c)" by simp
      with ne show ?thesis
        apply (rule_tac x = "[]" in exI)
        apply simp
        done
    qed
  qed
qed

lemma write_choices_accepting:
  "\<forall>out f. wr out f \<Longrightarrow> fst (write_choices wr cs out) = None"
  by (induction cs arbitrary: out) simp_all

lemma scan_loop_prefix:
  "\<exists>ys zs. snd (scan_loop w wr lines failed out) = out @ ys \<and>
            stream_fragments w lines = ys @ zs \<and>
            (fst (scan_loop w wr lines failed out) \<noteq> Some (Wrapped ''write stream'' WriteError) \<longrightarrow>
               zs = [] \<and>
               fst (scan_loop w wr lines failed out) =
                 (if failed \<and> ''[DONE]'' \<notin> set (data_lines lines) then Some ScanError else None))"
proof (induction lines arbitrary: out)
  case Nil
  show ?case
    by (simp add: stream_fragments_def chunks_def data_lines_def)
next
  case (Cons l lines)
  show ?case
  proof (cases "take 6 l = ''data: ''")
    case False
    then have "scan_loop w wr (l # lines) failed out = scan_loop w wr lines failed out"
      by (simp add: HasPrefix_data)
    moreover from False have "stream_fragments w (l # lines) = stream_fragments w lines"
      "data_lines (l # lines) = data_lines lines"
      by (simp_all add: stream_fragments_def chunks_def data_lines_def)
    ultimately show ?thesis using Cons.IH [of out] by simp
  next
    case True
    note pre = True
    show ?thesis
    proof (cases "drop 6 l = ''[DONE]''")
      case True
      with pre have "scan_loop w wr (l # lines) failed out = (None, out)"
        by (simp add: HasPrefix_data TrimPrefix_data Let_def)
      moreover from pre True have "stream_fragments w (l # lines) = []"
        "''[DONE]'' \<in> set (data_lines (l # lines))"
        by (simp_all add: stream_fragments_def chunks_def data_lines_def)
      ultimately show ?thesis by simp
    next
      case False
      note nd = False
      from pre nd have sf: "stream_fragments w (l # lines) =
          fragments w (drop 6 l) @ stream_fragments w lines"
        and dl: "(''[DONE]'' \<in> set (data_lines (l # lines))) = (''[DONE]'' \<in> set (data_lines lines))"
        by (auto simp: stream_fragments_def chunks_def data_lines_def)
      show ?thesis
      proof (cases "unmarshal_StreamDelta w (drop 6 l)")
        case None
        with pre nd have "scan_loop w wr (l # lines) failed out = scan_loop w wr lines failed out"
          by (simp add: HasPrefix_data TrimPrefix_data Let_def)
        moreover from None have "fragments w (drop 6 l) = []"
          by (simp add: fragments_def)
        ultimately show ?thesis using Cons.IH [of out] sf dl by simp
      next
        case (Some delta)
        then have fr: "fragments w (drop 6 l) = filter (\<lambda>f. f \<noteq> []) (map dc_Content (sd_Choices delta))"
          by (simp add: fragments_def)
        obtain e out1 where wc: "write_choices wr (sd_Choices delta) out = (e, out1)"
          by (cases "write_choices wr (sd_Choices delta) out")
        from write_choices_prefix [of wr "sd_Choices delta" out] obtain ys where
          "\<exists>zs. snd (write_choices wr (sd_Choices delta) out) = out @ ys \<and>
            filter (\<lambda>f. f \<noteq> []) (map dc_Content (sd_Choices delta)) = ys @ zs \<and>
            (fst (write_choices wr (sd_Choices delta) out) = None \<longrightarrow> zs = []) \<and>
            (fst (write_choices wr (sd_Choices delta) out) \<noteq> None \<longrightarrow>
               fst (write_choices wr (sd_Choices delta) out) =
                 Some (Wrapped ''write stream'' WriteError))" ..
        then obtain zs where h:
          "snd (write_choices wr (sd_Choices delta) out) = out @ ys \<and>
            filter (\<lambda>f. f \<noteq> []) (map dc_Content (sd_Choices delta)) = ys @ zs \<and>
            (fst (write_choices wr (sd_Choices delta) out) = None \<longrightarrow> zs = []) \<and>
            (fst (write_choices wr (sd_Choices delta) out) \<noteq> None \<longrightarrow>
               fst (write_choices wr (sd_Choices delta) out) =
                 Some (Wrapped ''write stream'' WriteError))" ..
        from h wc have o1: "out1 = out @ ys" by simp
        from h fr have split: "fragments w (drop 6 l) = ys @ zs" by simp
        from h wc have ok: "e = None \<longrightarrow> zs = []" by simp
        from h wc have bad: "e \<noteq> None \<longrightarrow> e = Some (Wrapped ''write stream'' WriteError)" by simp
        show ?thesis
        proof (cases e)
          case None
          with pre nd Some wc have step: "scan_loop w wr (l # lines) failed out =
              scan_loop w wr lines failed out1"
            by (simp add: HasPrefix_data TrimPrefix_data Let_def)
          from None ok split have ys: "fragments w (drop 6 l) = ys" by simp
          from Cons.IH [of out1] obtain ys' where
            "\<exists>zs'. snd (scan_loop w wr lines failed out1) = out1 @ ys' \<and>
               stream_fragments w lines = ys' @ zs' \<and>
               (fst (scan_loop w wr lines failed out1) \<noteq> Some (Wrapped ''write stream'' WriteError) \<longrightarrow>
                  zs' = [] \<and>
                  fst (scan_loop w wr lines failed out1) =
                    (if failed \<and> ''[DONE]'' \<notin> set (data_lines lines) then Some ScanError else None))" ..
          then obtain zs' where h':
            "snd (scan_loop w wr lines failed out1) = out1 @ ys' \<and>
               stream_fragments w lines = ys' @ zs' \<and>
               (fst (scan_loop w wr lines failed out1) \<noteq> Some (Wrapped ''write stream'' WriteError) \<longrightarrow>
                  zs' = [] \<and>
                  fst (scan_loop w wr lines failed out1) =
                    (if failed \<and> ''[DONE]'' \<notin> set (data_lines lines) then Some ScanError else None))" ..
          show ?thesis
            unfolding step
            apply (rule_tac x = "ys @ ys'" in exI)
            apply (rule_tac x = zs' in exI)
            using h' o1 ys sf dl apply simp
            done
        next
          case (Some err)
          with bad have e: "e = Some (Wrapped ''write stream'' WriteError)" by simp
          with pre nd \<open>unmarshal_StreamDelta w (drop 6 l) = Some delta\<close> wc
          have step: "scan_loop w wr (l # lines) failed out =
              (Some (Wrapped ''write stream'' WriteError), out1)"
            by (simp add: HasPrefix_data TrimPrefix_data Let_def)
          show ?thesis
            unfolding step
            apply (rule_tac x = ys in exI)
            apply (rule_tac x = "zs @ stream_fragments w lines" in exI)
            using o1 split sf apply simp
            done
        qed
      qed
    qed
  qed
qed

lemma write_choices_accepting_pair:
  assumes "\<forall>out f. wr out f"
  shows "\<exists>out'. write_choices wr cs out = (None, out')"
  using write_choices_accepting [OF assms, of cs out]
  by (cases "write_choices wr cs out") simp

lemma scan_loop_accepting:
  assumes acc: "\<forall>out f. wr out f"
  shows "fst (scan_loop w wr lines failed out) \<noteq> Some (Wrapped ''write stream'' WriteError)"
proof (induction lines arbitrary: out)
  case Nil
  show ?case by simp
next
  case (Cons l lines)
  show ?case
  proof (cases "unmarshal_StreamDelta w (TrimPrefix l ''data: '')")
    case None
    then show ?thesis using Cons.IH by (simp add: Let_def)
  next
    case (Some delta)
    from write_choices_accepting_pair [OF acc, of "sd_Choices delta" out]
    obtain out' where "write_choices wr (sd_Choices delta) out = (None, out')" ..
    with Some show ?thesis using Cons.IH by (simp add: Let_def)
  qed
qed

lemma StreamChatCompletion_scan:
  assumes "groq_stream w tr groqAPIURL (chat_request c ms n True) = Response StatusOK (lines, failed)"
  shows "StreamChatCompletion w c ms n wr out tr =
           (fst (scan_loop w wr lines failed out), snd (scan_loop w wr lines failed out),
            tr @ [ChatStream groqAPIURL (chat_request c ms n True) (Response StatusOK (lines, failed))])"
  using assms unfolding StreamChatCompletion_def chat_request_def Let_def
  by (simp split: prod.splits)

lemma sample_chunks_lookup:
  "map_of sample_chunks (drop 6 (sample_lines ! 0)) =
     Some \<lparr>sd_ID = ''c1'', sd_Choices = [\<lparr>dc_Content = ''Hel'', dc_FinishReason = []\<rparr>]\<rparr>"
  "map_of sample_chunks (drop 6 (sample_lines ! 3)) = None"
  "map_of sample_chunks (drop 6 (sample_lines ! 4)) =
     Some \<lparr>sd_ID = ''c1'', sd_Choices = [\<lparr>dc_Content = ''lo'', dc_FinishReason = []\<rparr>]\<rparr>"
  "map_of sample_chunks (drop 6 (sample_lines ! 5)) =
     Some \<lparr>sd_ID = ''c1'', sd_Choices = [\<lparr>dc_Content = [], dc_FinishReason = ''stop''\<rparr>]\<rparr>"
  by (simp_all add: sample_chunks_def sample_lines_def)

lemma sample_stream_fragments: "stream_fragments sample_env sample_lines = [''Hel'', ''lo'']"
  using sample_chunks_lookup
  by (simp add: stream_fragments_def chunks_def data_lines_def fragments_def sample_env_simps
      sample_lines_def)

text \<open>
  Claim C7. When the generation endpoint answers a streaming request with status 200,
  what \<open>StreamChatCompletion\<close> writes to the sink is, after what the sink held, a prefix of
  the fragments of the stream in arrival order: the non-empty \<open>delta.content\<close> of the
  chunks that parse, chunk by chunk, up to the sentinel \<open>[DONE]\<close> or the end of the
  stream; lines without the \<open>data:\<close> prefix and chunks that do not parse contribute
  nothing and do not stop the loop. Unless a write to the sink fails, all of these
  fragments are written and the result is \<open>nil\<close>, or the scanner's error when reading
  stopped with one before any sentinel; a sink that accepts every write never makes a
  write fail. So the fragments \<open>Hel\<close>, \<open>lo\<close> give the output \<open>Hello\<close>.
\<close>

theorem streaming_delivers_fragments_in_order:
  assumes "groq_stream w tr groqAPIURL (chat_request c ms n True) = Response StatusOK (lines, failed)"
  shows "case StreamChatCompletion w c ms n wr out tr of
           (err, out', tr') \<Rightarrow>
             (\<exists>ys zs. out' = out @ ys \<and> stream_fragments w lines = ys @ zs) \<and>
             (err \<noteq> Some (Wrapped ''write stream'' WriteError) \<longrightarrow>
                out' = out @ stream_fragments w lines \<and>
                err = (if failed \<and> ''[DONE]'' \<notin> set (data_lines lines) then Some ScanError else None)) \<and>
             ((\<forall>written f. wr written f) \<longrightarrow> err \<noteq> Some (Wrapped ''write stream'' WriteError))"
proof -
  let ?r = "scan_loop w wr lines failed out"
  from scan_loop_prefix [of w wr lines failed out] obtain ys where
    "\<exists>zs. snd ?r = out @ ys \<and> stream_fragments w lines = ys @ zs \<and>
          (fst ?r \<noteq> Some (Wrapped ''write stream'' WriteError) \<longrightarrow>
             zs = [] \<and>
             fst ?r = (if failed \<and> ''[DONE]'' \<notin> set (data_lines lines) then Some ScanError else None))" ..
  then obtain zs where h:
    "snd ?r = out @ ys \<and> stream_fragments w lines = ys @ zs \<and>
          (fst ?r \<noteq> Some (Wrapped ''write stream'' WriteError) \<longrightarrow>
             zs = [] \<and>
             fst ?r = (if failed \<and> ''[DONE]'' \<notin> set (data_lines lines) then Some ScanError else None))" ..
  have a: "\<exists>ys zs. snd ?r = out @ ys \<and> stream_fragments w lines = ys @ zs"
    using h by blast
  have b: "fst ?r \<noteq> Some (Wrapped ''write stream'' WriteError) \<longrightarrow>
             snd ?r = out @ stream_fragments w lines \<and>
             fst ?r = (if failed \<and> ''[DONE]'' \<notin> set (data_lines lines) then Some ScanError else None)"
    using h by simp
  have c: "(\<forall>written f. wr written f) \<longrightarrow> fst ?r \<noteq> Some (Wrapped ''write stream'' WriteError)"
    using scan_loop_accepting [of wr w lines failed out] by blast
  show ?thesis
    unfolding StreamChatCompletion_scan [OF assms]
    using a b c by simp
qed

theorem streaming_delivers_fragments_in_order_witness:
  "groq_stream sample_env [] groqAPIURL
      (chat_request (NewLLMClient ''key'') (build_messages [] ''hi'') 1024 True) =
     Response StatusOK (sample_lines, False) \<and>
   fst (StreamChatCompletion sample_env (NewLLMClient ''key'') (build_messages [] ''hi'') 1024
          (\<lambda>out f. True) [] []) = None \<and>
   concat (fst (snd (StreamChatCompletion sample_env (NewLLMClient ''key'')
                       (build_messages [] ''hi'') 1024 (\<lambda>out f. True) [] []))) = ''Hello''"
proof -
  have a: "groq_stream sample_env [] groqAPIURL
      (chat_request (NewLLMClient ''key'') (build_messages [] ''hi'') 1024 True) =
     Response StatusOK (sample_lines, False)"
    by (simp add: sample_env_simps StatusOK_def)
  from streaming_delivers_fragments_in_order [OF a, where wr = "\<lambda>out f. True" and out = "[]"] a
  show ?thesis
    by (simp add: sample_stream_fragments split: prod.splits)
qed

section \<open>Provisioning the collection\<close>

lemma createCollection_trace:
  "snd (createCollection w c tr) =
     tr @ [CollectionPut (collection_url c) (vectorSize c) ''Cosine''
             (qdrant_create w tr (collection_url c) (vectorSize c) ''Cosine'')]"
  unfolding createCollection_def collection_url_def Let_def
  by (simp split: http.splits)

lemma createCollection_ok:
  "(fst (createCollection w c tr) = None) =
     (qdrant_create w tr (collection_url c) (vectorSize c) ''Cosine'' = Response StatusOK () \<or>
      qdrant_create w tr (collection_url c) (vectorSize c) ''Cosine'' = Response StatusConflict ())"
  unfolding createCollection_def collection_url_def Let_def
  by (simp split: http.splits)

lemma EnsureCollection_exists:
  assumes "qdrant_get w tr (collection_url c) = Response StatusOK ()"
  shows "EnsureCollection w c tr = (None, tr @ [CollectionGet (collection_url c) (Response StatusOK ())])"
  using assms unfolding EnsureCollection_def collection_url_def Let_def
  by simp

lemma EnsureCollection_other_status:
  assumes "qdrant_get w tr (collection_url c) = Response st ()" and "st \<noteq> StatusOK"
  shows "EnsureCollection w c tr =
           createCollection w c (tr @ [CollectionGet (collection_url c) (Response st ())])"
  using assms unfolding EnsureCollection_def collection_url_def Let_def
  by simp

lemma EnsureCollection_no_response:
  assumes "qdrant_get w tr (collection_url c) = RequestFailed \<or>
           qdrant_get w tr (collection_url c) = DoFailed"
  shows "fst (EnsureCollection w c tr) \<noteq> None \<and>
         snd (EnsureCollection w c tr) =
           tr @ [CollectionGet (collection_url c) (qdrant_get w tr (collection_url c))]"
  using assms unfolding EnsureCollection_def collection_url_def Let_def
  by auto

lemma shows_collection_append:
  "shows_collection (tr @ tr') url = (shows_collection tr url \<or> shows_collection tr' url)"
  by (simp add: shows_collection_def list_ex_append)

lemma EnsureCollection_first:
  assumes law: "answering_store w (collection_url c)"
  shows "fst (EnsureCollection w c tr) = None \<and>
         shows_collection (snd (EnsureCollection w c tr)) (collection_url c)"
proof -
  let ?url = "collection_url c"
  from law obtain st where get: "qdrant_get w tr ?url = Response st ()"
    unfolding answering_store_def by blast
  show ?thesis
  proof (cases "st = StatusOK")
    case True
    with get have "EnsureCollection w c tr = (None, tr @ [CollectionGet ?url (Response StatusOK ())])"
      by (simp add: EnsureCollection_exists)
    then show ?thesis
      by (simp add: shows_collection_append shows_collection_def)
  next
    case False
    let ?tr1 = "tr @ [CollectionGet ?url (Response st ())]"
    from get False have e: "EnsureCollection w c tr = createCollection w c ?tr1"
      by (rule EnsureCollection_other_status)
    from law have cr: "qdrant_create w ?tr1 ?url (vectorSize c) ''Cosine'' = Response StatusOK () \<or>
        qdrant_create w ?tr1 ?url (vectorSize c) ''Cosine'' = Response StatusConflict ()"
      unfolding answering_store_def by blast
    then have ok: "fst (createCollection w c ?tr1) = None"
      by (simp add: createCollection_ok)
    from cr have "shows_collection (snd (createCollection w c ?tr1)) ?url"
      unfolding createCollection_trace
      by (auto simp: shows_collection_append shows_collection_def)
    with ok e show ?thesis by simp
  qed
qed

lemma EnsureCollection_second:
  assumes law: "answering_store w (collection_url c)"
    and "shows_collection tr (collection_url c)"
  shows "EnsureCollection w c tr =
           (None, tr @ [CollectionGet (collection_url c) (Response StatusOK ())])"
proof -
  from assms have "qdrant_get w tr (collection_url c) = Response StatusOK ()"
    unfolding answering_store_def by blast
  then show ?thesis by (rule EnsureCollection_exists)
qed

lemma sample_answering_store: "answering_store sample_env url"
  by (simp add: answering_store_def sample_env_simps StatusOK_def StatusConflict_def)

lemma sample_collection_url:
  "collection_url sample_store = ''http://localhost:6333/collections/knowledge_base''"
  by (simp add: collection_url_def sample_store_def)

lemma unreachable_get: "qdrant_get unreachable_env tr url = DoFailed"
  by (simp add: unreachable_env_def)

text \<open>
  Claim C4, as it stands, has every outcome of the existence check other than
  \<open>exists\<close> and \<open>not found\<close> trigger a create attempt, and two calls in a row succeed.
  When the check gets no response (the store is unreachable), \<open>EnsureCollection\<close>
  returns the wrapped error at once: no create request is sent, and neither the first
  call nor a second one succeeds.
\<close>

theorem EnsureCollection_unreachable_counterexample:
  "EnsureCollection unreachable_env sample_store [] =
     (Some (Wrapped ''check collection'' TransportError),
      [CollectionGet ''http://localhost:6333/collections/knowledge_base'' DoFailed]) \<and>
   create_calls (snd (EnsureCollection unreachable_env sample_store [])) = [] \<and>
   fst (EnsureCollection unreachable_env sample_store
          (snd (EnsureCollection unreachable_env sample_store []))) \<noteq> None"
  by (simp add: EnsureCollection_def unreachable_get sample_store_def Let_def)

text \<open>
  Claim C4, amended. If the existence check is answered with 200, \<open>EnsureCollection\<close>
  succeeds without a create request. If it is answered with any other status (404 or
  not), \<open>EnsureCollection\<close> is the create attempt: one request that carries the
  configured vector size and the distance \<open>Cosine\<close>, which succeeds exactly when it is
  answered with 200 or 409. If the check gets no response, \<open>EnsureCollection\<close> fails
  with only the check in the trace. Against a store that answers and keeps its
  collections, two calls in a row succeed both, and the second sends only the check.
\<close>

theorem EnsureCollection_decisions:
  "(qdrant_get w tr (collection_url c) = Response StatusOK () \<longrightarrow>
      EnsureCollection w c tr =
        (None, tr @ [CollectionGet (collection_url c) (Response StatusOK ())])) \<and>
   (\<forall>st. qdrant_get w tr (collection_url c) = Response st () \<longrightarrow> st \<noteq> StatusOK \<longrightarrow>
      EnsureCollection w c tr =
        createCollection w c (tr @ [CollectionGet (collection_url c) (Response st ())])) \<and>
   (qdrant_get w tr (collection_url c) = RequestFailed \<or>
    qdrant_get w tr (collection_url c) = DoFailed \<longrightarrow>
      fst (EnsureCollection w c tr) \<noteq> None \<and>
      snd (EnsureCollection w c tr) =
        tr @ [CollectionGet (collection_url c) (qdrant_get w tr (collection_url c))]) \<and>
   snd (createCollection w c tr) =
     tr @ [CollectionPut (collection_url c) (vectorSize c) ''Cosine''
             (qdrant_create w tr (collection_url c) (vectorSize c) ''Cosine'')] \<and>
   ((fst (createCollection w c tr) = None) =
      (qdrant_create w tr (collection_url c) (vectorSize c) ''Cosine'' = Response StatusOK () \<or>
       qdrant_create w tr (collection_url c) (vectorSize c) ''Cosine'' = Response StatusConflict ())) \<and>
   (answering_store w (collection_url c) \<longrightarrow>
      fst (EnsureCollection w c tr) = None \<and>
      EnsureCollection w c (snd (EnsureCollection w c tr)) =
        (None, snd (EnsureCollection w c tr) @
                 [CollectionGet (collection_url c) (Response StatusOK ())]))"
proof (intro conjI impI allI)
  assume "qdrant_get w tr (collection_url c) = Response StatusOK ()"
  then show "EnsureCollection w c tr =
        (None, tr @ [CollectionGet (collection_url c) (Response StatusOK ())])"
    by (rule EnsureCollection_exists)
next
  fix st
  assume "qdrant_get w tr (collection_url c) = Response st ()" and "st \<noteq> StatusOK"
  then show "EnsureCollection w c tr =
        createCollection w c (tr @ [CollectionGet (collection_url c) (Response st ())])"
    by (rule EnsureCollection_other_status)
next
  assume a: "qdrant_get w tr (collection_url c) = RequestFailed \<or>
    qdrant_get w tr (collection_url c) = DoFailed"
  from EnsureCollection_no_response [OF a]
  show "fst (EnsureCollection w c tr) \<noteq> None"
    and "snd (EnsureCollection w c tr) =
        tr @ [CollectionGet (collection_url c) (qdrant_get w tr (collection_url c))]"
    by simp_all
next
  show "snd (createCollection w c tr) =
     tr @ [CollectionPut (collection_url c) (vectorSize c) ''Cosine''
             (qdrant_create w tr (collection_url c) (vectorSize c) ''Cosine'')]"
    by (rule createCollection_trace)
next
  show "(fst (createCollection w c tr) = None) =
      (qdrant_create w tr (collection_url c) (vectorSize c) ''Cosine'' = Response StatusOK () \<or>
       qdrant_create w tr (collection_url c) (vectorSize c) ''Cosine'' = Response StatusConflict ())"
    by (rule createCollection_ok)
next
  assume law: "answering_store w (collection_url c)"
  from EnsureCollection_first [OF law, of tr]
  show "fst (EnsureCollection w c tr) = None" by simp
  from EnsureCollection_first [OF law, of tr]
  have "shows_collection (snd (EnsureCollection w c tr)) (collection_url c)" by simp
  with law show "EnsureCollection w c (snd (EnsureCollection w c tr)) =
        (None, snd (EnsureCollection w c tr) @
                 [CollectionGet (collection_url c) (Response StatusOK ())])"
    by (rule EnsureCollection_second)
qed

theorem EnsureCollection_decisions_witness:
  "answering_store sample_env (collection_url sample_store) \<and>
   qdrant_get sample_env [] (collection_url sample_store) = Response StatusNotFound () \<and>
   EnsureCollection sample_env sample_store [] =
     (None,
      [CollectionGet ''http://localhost:6333/collections/knowledge_base'' (Response 404 ()),
       CollectionPut ''http://localhost:6333/collections/knowledge_base'' 768 ''Cosine''
         (Response 200 ())]) \<and>
   EnsureCollection sample_env sample_store (snd (EnsureCollection sample_env sample_store [])) =
     (None,
      [CollectionGet ''http://localhost:6333/collections/knowledge_base'' (Response 404 ()),
       CollectionPut ''http://localhost:6333/collections/knowledge_base'' 768 ''Cosine''
         (Response 200 ()),
       CollectionGet ''http://localhost:6333/collections/knowledge_base'' (Response 200 ())]) \<and>
   qdrant_get unreachable_env [] (collection_url sample_store) = DoFailed \<and>
   fst (EnsureCollection unreachable_env sample_store []) \<noteq> None"
proof -
  have law: "answering_store sample_env (collection_url sample_store)"
    by (rule sample_answering_store)
  have get: "qdrant_get sample_env [] (collection_url sample_store) = Response StatusNotFound ()"
    by (simp add: sample_env_simps shows_collection_def StatusNotFound_def)
  have ne: "StatusNotFound \<noteq> StatusOK"
    by (simp add: StatusNotFound_def StatusOK_def)
  have first: "EnsureCollection sample_env sample_store [] =
     (None,
      [CollectionGet ''http://localhost:6333/collections/knowledge_base'' (Response 404 ()),
       CollectionPut ''http://localhost:6333/collections/knowledge_base'' 768 ''Cosine''
         (Response 200 ())])"
    by (simp add: EnsureCollection_def createCollection_def sample_env_simps sample_store_def
        shows_collection_def StatusOK_def StatusNotFound_def StatusConflict_def Let_def)
  from EnsureCollection_decisions [of sample_env "[]" sample_store] law
  have second: "EnsureCollection sample_env sample_store
                  (snd (EnsureCollection sample_env sample_store [])) =
        (None, snd (EnsureCollection sample_env sample_store []) @
                 [CollectionGet (collection_url sample_store) (Response StatusOK ())])"
    by blast
  have down: "qdrant_get unreachable_env [] (collection_url sample_store) = DoFailed"
    by (rule unreachable_get)
  from EnsureCollection_decisions [of unreachable_env "[]" sample_store] down
  have failed: "fst (EnsureCollection unreachable_env sample_store []) \<noteq> None"
    by blast
  have second': "EnsureCollection sample_env sample_store
                  (snd (EnsureCollection sample_env sample_store [])) =
     (None,
      [CollectionGet ''http://localhost:6333/collections/knowledge_base'' (Response 404 ()),
       CollectionPut ''http://localhost:6333/collections/knowledge_base'' 768 ''Cosine''
         (Response 200 ()),
       CollectionGet ''http://localhost:6333/collections/knowledge_base'' (Response 200 ())])"
    unfolding second by (simp add: first sample_collection_url StatusOK_def)
  show ?thesis
    using law get first second' down failed by blast
qed

section \<open>Ingestion: texts, points and batches\<close>

lemma texts_loop_fill:
  "i + length es \<le> length out \<Longrightarrow>
   texts_loop i es out = take i out @ map entryToText es @ drop (i + length es) out"
proof (induction es arbitrary: i out)
  case Nil
  then show ?case by simp
next
  case (Cons e es)
  let ?out = "out[i := entryToText e]"
  from Cons.prems have i: "i < length out" and le: "(i + 1) + length es \<le> length ?out"
    by simp_all
  have "texts_loop i (e # es) out = texts_loop (i + 1) es ?out"
    by simp
  also have "\<dots> = take (i + 1) ?out @ map entryToText es @ drop (i + 1 + length es) ?out"
    by (rule Cons.IH [OF le])
  also have "take (i + 1) ?out = take i out @ [entryToText e]"
    using i by (simp add: take_Suc_conv_app_nth)
  also have "drop (i + 1 + length es) ?out = drop (i + 1 + length es) out"
    by simp
  finally show ?case by simp
qed

lemma texts_loop_map: "texts_loop 0 es (replicate (length es) z) = map entryToText es"
  by (simp add: texts_loop_fill)

lemma UpsertPoints_loop_fill:
  "i + length ps \<le> length out \<Longrightarrow>
   UpsertPoints_loop i ps out = take i out @ map qdrant_point_of ps @ drop (i + length ps) out"
proof (induction ps arbitrary: i out)
  case Nil
  then show ?case by simp
next
  case (Cons p ps)
  let ?out = "out[i := qdrant_point_of p]"
  from Cons.prems have i: "i < length out" and le: "(i + 1) + length ps \<le> length ?out"
    by simp_all
  have "UpsertPoints_loop i (p # ps) out = UpsertPoints_loop (i + 1) ps ?out"
    by (simp add: qdrant_point_of_def)
  also have "\<dots> = take (i + 1) ?out @ map qdrant_point_of ps @ drop (i + 1 + length ps) ?out"
    by (rule Cons.IH [OF le])
  also have "take (i + 1) ?out = take i out @ [qdrant_point_of p]"
    using i by (simp add: take_Suc_conv_app_nth)
  also have "drop (i + 1 + length ps) ?out = drop (i + 1 + length ps) out"
    by simp
  finally show ?case by simp
qed

lemma UpsertPoints_loop_map:
  "UpsertPoints_loop 0 ps (replicate (length ps) z) = map qdrant_point_of ps"
  by (simp add: UpsertPoints_loop_fill)

text \<open>The points loop, for entries whose texts and vectors are given position by position.\<close>

lemma points_loop_fill:
  "i + length es \<le> length out \<Longrightarrow> length vs = length es \<Longrightarrow>
   length pre = i \<Longrightarrow> length pes = i \<Longrightarrow>
   points_loop i es (pre @ vs) (map entryToText pes @ map entryToText es) out =
     Inr (take i out @ map point_of (zip es vs) @ drop (i + length es) out)"
proof (induction es arbitrary: i out vs pre pes)
  case Nil
  then show ?case by simp
next
  case (Cons e es)
  from Cons.prems obtain v vs' where vs: "vs = v # vs'" and lv: "length vs' = length es"
    by (cases vs) auto
  let ?p = "point_of (e, v)"
  let ?out = "out[i := ?p]"
  from Cons.prems have i: "i < length out" and le: "(i + 1) + length es \<le> length ?out"
    by simp_all
  have emb: "(pre @ vs) ! i = v" using Cons.prems vs by (simp add: nth_append)
  have tx: "(map entryToText pes @ map entryToText (e # es)) ! i = entryToText e"
    using Cons.prems by (simp add: nth_append)
  have rng: "i < length (pre @ vs) \<and> i < length (map entryToText pes @ map entryToText (e # es))"
    using Cons.prems vs by simp
  have step: "points_loop i (e # es) (pre @ vs) (map entryToText pes @ map entryToText (e # es)) out =
        points_loop (i + 1) es (pre @ vs) (map entryToText pes @ map entryToText (e # es)) ?out"
    using rng emb tx by (simp add: point_of_def payload_of_def)
  have "points_loop (i + 1) es ((pre @ [v]) @ vs') (map entryToText (pes @ [e]) @ map entryToText es) ?out =
      Inr (take (i + 1) ?out @ map point_of (zip es vs') @ drop (i + 1 + length es) ?out)"
    by (rule Cons.IH [OF le lv]) (use Cons.prems in simp_all)
  then have "points_loop (i + 1) es (pre @ vs) (map entryToText pes @ map entryToText (e # es)) ?out =
      Inr (take (i + 1) ?out @ map point_of (zip es vs') @ drop (i + 1 + length es) ?out)"
    using vs by simp
  moreover have "take (i + 1) ?out = take i out @ [?p]"
    using i by (simp add: take_Suc_conv_app_nth)
  moreover have "drop (i + 1 + length es) ?out = drop (i + 1 + length es) out"
    by simp
  ultimately show ?case using step vs by simp
qed

lemma points_loop_map:
  assumes "length vs = length es"
  shows "points_loop 0 es vs (map entryToText es) (replicate (length es) z) =
           Inr (map point_of (zip es vs))"
  using points_loop_fill [of 0 es "replicate (length es) z" vs "[]" "[]"] assms
  by simp

lemma Embed_length:
  assumes "Embed w e texts tr = (Inr embs, tr')"
  shows "length embs = length texts"
proof -
  from assms have "Embed_loop w e 0 texts (replicate (length texts) []) tr = (Inr embs, tr')"
    by (simp add: Embed_def)
  from Embed_loop_Inr [OF this] show ?thesis by simp
qed

lemma processBatch_refine:
  "processBatch w s entries tr =
     (case Embed w (ing_embedder s) (map entryToText entries) tr of
        (Inl err, tr') \<Rightarrow> (Some (Wrapped ''embed texts'' err), tr')
      | (Inr embeddings, tr') \<Rightarrow>
          (case UpsertPoints w (ing_vectorClient s) (map point_of (zip entries embeddings)) tr' of
             (Some err, tr'') \<Rightarrow> (Some (Wrapped ''upsert points'' err), tr'')
           | (None, tr'') \<Rightarrow> (None, tr'')))"
proof (cases "Embed w (ing_embedder s) (map entryToText entries) tr")
  case (Pair r tr')
  show ?thesis
  proof (cases r)
    case (Inl err)
    with Pair show ?thesis
      by (simp add: processBatch_def texts_loop_map)
  next
    case (Inr embs)
    with Pair have "length embs = length entries"
      using Embed_length [of w "ing_embedder s" "map entryToText entries" tr embs tr'] by simp
    then have "points_loop 0 entries embs (map entryToText entries)
                 (replicate (length entries) \<lparr>pt_ID = [], pt_Vector = [], pt_Payload = Map.empty\<rparr>) =
               Inr (map point_of (zip entries embs))"
      by (rule points_loop_map)
    with Pair Inr show ?thesis
      by (simp add: processBatch_def texts_loop_map)
  qed
qed


lemma UpsertPoints_ok:
  "(fst (UpsertPoints w c points tr) = None) =
     (qdrant_upsert w tr (points_url c) (map qdrant_point_of points) = Response StatusOK ())"
  unfolding UpsertPoints_def points_url_def Let_def UpsertPoints_loop_map
  by (simp split: http.splits)

lemma entryToText_eq:
  "entryToText entry =
     ''Module: '' @ ke_Module entry @ ''\<newline>Topic: '' @ ke_Topic entry @
     ''\<newline>Questions: '' @ strings_Join (ke_QueryVariations entry) ''; '' @
     ''\<newline>Answer: '' @ ke_Answer entry"
  by (simp add: entryToText_def)

lemma sample_entry_text:
  "entryToText (sample_entry i) =
     ''Module: Leave\<newline>Topic: Requests\<newline>Questions: How do I apply?; Where is the form?\<newline>Answer: Open Leave and press Apply.''"
  by (simp add: entryToText_def sample_entry_def)

text \<open>
  Claim C8. The text of an entry is \<open>Module: \<close>, the module, \<open>Topic: \<close> on a new line, the
  topic, \<open>Questions: \<close> on a new line, the query variations joined with \<open>; \<close>,
  \<open>Answer: \<close> on a new line, and the answer. \<open>processBatch\<close> embeds exactly these texts, in
  the order of the entries, and upserts for every entry the point made of the entry's
  identifier, its vector, and a payload with the seven keys \<open>id\<close>, \<open>module\<close>, \<open>topic\<close>,
  \<open>roles\<close>, \<open>query_variations\<close>, \<open>answer\<close> (the entry's fields) and \<open>text\<close> (the derived
  text).
\<close>

theorem entry_text_and_point_payload:
  "entryToText entry =
     ''Module: '' @ ke_Module entry @ ''\<newline>Topic: '' @ ke_Topic entry @
     ''\<newline>Questions: '' @ strings_Join (ke_QueryVariations entry) ''; '' @
     ''\<newline>Answer: '' @ ke_Answer entry \<and>
   processBatch w s entries tr =
     (case Embed w (ing_embedder s) (map entryToText entries) tr of
        (Inl err, tr') \<Rightarrow> (Some (Wrapped ''embed texts'' err), tr')
      | (Inr embeddings, tr') \<Rightarrow>
          (case UpsertPoints w (ing_vectorClient s) (map point_of (zip entries embeddings)) tr' of
             (Some err, tr'') \<Rightarrow> (Some (Wrapped ''upsert points'' err), tr'')
           | (None, tr'') \<Rightarrow> (None, tr''))) \<and>
   pt_ID (point_of (entry, vec)) = ke_ID entry \<and>
   pt_Vector (point_of (entry, vec)) = vec \<and>
   pt_Payload (point_of (entry, vec)) =
     [''id'' \<mapsto> VString (ke_ID entry),
      ''module'' \<mapsto> VString (ke_Module entry),
      ''topic'' \<mapsto> VString (ke_Topic entry),
      ''roles'' \<mapsto> VStrings (ke_Roles entry),
      ''query_variations'' \<mapsto> VStrings (ke_QueryVariations entry),
      ''answer'' \<mapsto> VString (ke_Answer entry),
      ''text'' \<mapsto> VString (entryToText entry)] \<and>
   dom (pt_Payload (point_of (entry, vec))) =
     {''id'', ''module'', ''topic'', ''roles'', ''query_variations'', ''answer'', ''text''}"
proof (intro conjI)
  show "entryToText entry =
     ''Module: '' @ ke_Module entry @ ''\<newline>Topic: '' @ ke_Topic entry @
     ''\<newline>Questions: '' @ strings_Join (ke_QueryVariations entry) ''; '' @
     ''\<newline>Answer: '' @ ke_Answer entry"
    by (rule entryToText_eq)
  show "processBatch w s entries tr =
     (case Embed w (ing_embedder s) (map entryToText entries) tr of
        (Inl err, tr') \<Rightarrow> (Some (Wrapped ''embed texts'' err), tr')
      | (Inr embeddings, tr') \<Rightarrow>
          (case UpsertPoints w (ing_vectorClient s) (map point_of (zip entries embeddings)) tr' of
             (Some err, tr'') \<Rightarrow> (Some (Wrapped ''upsert points'' err), tr'')
           | (None, tr'') \<Rightarrow> (None, tr'')))"
    by (rule processBatch_refine)
  show "pt_ID (point_of (entry, vec)) = ke_ID entry"
    by (simp add: point_of_def)
  show "pt_Vector (point_of (entry, vec)) = vec"
    by (simp add: point_of_def)
  show "pt_Payload (point_of (entry, vec)) =
     [''id'' \<mapsto> VString (ke_ID entry),
      ''module'' \<mapsto> VString (ke_Module entry),
      ''topic'' \<mapsto> VString (ke_Topic entry),
      ''roles'' \<mapsto> VStrings (ke_Roles entry),
      ''query_variations'' \<mapsto> VStrings (ke_QueryVariations entry),
      ''answer'' \<mapsto> VString (ke_Answer entry),
      ''text'' \<mapsto> VString (entryToText entry)]"
    by (simp add: point_of_def payload_of_def)
  show "dom (pt_Payload (point_of (entry, vec))) =
     {''id'', ''module'', ''topic'', ''roles'', ''query_variations'', ''answer'', ''text''}"
    by (simp add: point_of_def payload_of_def insert_commute)
qed

theorem entry_text_and_point_payload_witness:
  "entryToText (sample_entry ''kb-01'') =
     ''Module: Leave\<newline>Topic: Requests\<newline>Questions: How do I apply?; Where is the form?\<newline>Answer: Open Leave and press Apply.'' \<and>
   pt_Payload (point_of (sample_entry ''kb-01'', [0x3F800000])) ''id'' = Some (VString ''kb-01'') \<and>
   pt_Payload (point_of (sample_entry ''kb-01'', [0x3F800000])) ''roles'' =
     Some (VStrings [''employee'', ''admin'']) \<and>
   pt_Payload (point_of (sample_entry ''kb-01'', [0x3F800000])) ''text'' =
     Some (VString (entryToText (sample_entry ''kb-01''))) \<and>
   processBatch sample_env sample_ingest [sample_entry ''kb-01''] [] =
     (None,
      [embed_event NewEmbedder (entryToText (sample_entry ''kb-01''))
         (Response 200 (Decoded [0x3FF0000000000000])),
       PointsPut (points_url sample_store)
         [qdrant_point_of (point_of (sample_entry ''kb-01'', [0x3F800000]))] (Response 200 ())])"
proof -
  have nb: "take 8000 (entryToText (sample_entry ''kb-01'')) \<noteq> ''boom''"
    by (simp add: sample_entry_text)
  have e: "Embed sample_env (ing_embedder sample_ingest) (map entryToText [sample_entry ''kb-01'']) [] =
      (Inr [[0x3F800000]],
       [embed_event NewEmbedder (entryToText (sample_entry ''kb-01''))
          (Response 200 (Decoded [0x3FF0000000000000]))])"
    using nb
    by (simp add: Embed_def embedSingle_def truncate_take sample_env_simps sample_ingest_def
        NewIngestService_def NewEmbedder_def embed_event_def float64ToFloat32_def StatusOK_def
        Let_def)
  have u: "UpsertPoints sample_env (ing_vectorClient sample_ingest)
             (map point_of (zip [sample_entry ''kb-01''] [[0x3F800000]]))
             [embed_event NewEmbedder (entryToText (sample_entry ''kb-01''))
                (Response 200 (Decoded [0x3FF0000000000000]))] =
      (None,
       [embed_event NewEmbedder (entryToText (sample_entry ''kb-01''))
          (Response 200 (Decoded [0x3FF0000000000000])),
        PointsPut (points_url sample_store)
          [qdrant_point_of (point_of (sample_entry ''kb-01'', [0x3F800000]))] (Response 200 ())])"
    by (simp add: UpsertPoints_def points_url_def qdrant_point_of_def sample_env_simps
        sample_ingest_def NewIngestService_def StatusOK_def Let_def)
  from entry_text_and_point_payload [of "sample_entry ''kb-01''" sample_env sample_ingest
      "[sample_entry ''kb-01'']" "[]" "[0x3F800000]"]
  have "processBatch sample_env sample_ingest [sample_entry ''kb-01''] [] =
     (None,
      [embed_event NewEmbedder (entryToText (sample_entry ''kb-01''))
         (Response 200 (Decoded [0x3FF0000000000000])),
       PointsPut (points_url sample_store)
         [qdrant_point_of (point_of (sample_entry ''kb-01'', [0x3F800000]))] (Response 200 ())])"
    by (simp only: e u prod.case sum.case option.case)
  moreover from entry_text_and_point_payload [of "sample_entry ''kb-01''" sample_env sample_ingest
      "[sample_entry ''kb-01'']" "[]" "[0x3F800000]"]
  have "pt_Payload (point_of (sample_entry ''kb-01'', [0x3F800000])) ''id'' = Some (VString ''kb-01'')"
    "pt_Payload (point_of (sample_entry ''kb-01'', [0x3F800000])) ''roles'' =
       Some (VStrings [''employee'', ''admin''])"
    "pt_Payload (point_of (sample_entry ''kb-01'', [0x3F800000])) ''text'' =
       Some (VString (entryToText (sample_entry ''kb-01'')))"
    by (simp_all add: sample_entry_def)
  ultimately show ?thesis
    using sample_entry_text by simp
qed

subsection \<open>Batches\<close>










subsection \<open>The sample runs\<close>














end
